theory Spec2Isabelle
  imports Main "HOL-Library.Word" "HOL-Library.Monad_Syntax"
begin

unbundle bit_operations_syntax

section \<open>Machine types and constants\<close>

text \<open>
  The kext is built for x86-64: \<open>unsigned long\<close> and pointers are 64 bits wide,
  \<open>int\<close>, \<open>u32\<close> and \<open>unsigned int\<close> are 32 bits wide. Small status codes that
  cannot overflow (handler results, errno values) are plain integers.
\<close>

type_synonym ulong = "64 word"
type_synonym u32 = "32 word"
type_synonym u16 = "16 word"
type_synonym u8 = "8 word"

definition PAGE_SIZE :: nat where
  "PAGE_SIZE = 4096"

definition PAGE_OFFSET :: nat where
  "PAGE_OFFSET = 512"

definition IRQ_MAX :: nat where
  "IRQ_MAX = 16"

definition EINVAL :: int where
  "EINVAL = 22"

text \<open>
  Modelled from the spec: the EPT permission masks are declared in the header
  \<open>asm/uapi_vmx.h\<close>, which is not among the sources. The leaf gets
  ``read/write/execute allowed'', the three low bits of an EPT entry.
\<close>

definition VMX_EPT_READABLE_MASK :: ulong where
  "VMX_EPT_READABLE_MASK = 1"

definition VMX_EPT_WRITABLE_MASK :: ulong where
  "VMX_EPT_WRITABLE_MASK = 2"

definition VMX_EPT_EXECUTABLE_MASK :: ulong where
  "VMX_EPT_EXECUTABLE_MASK = 4"

definition EPT_CACHE_WRITEBACK :: ulong where
  "EPT_CACHE_WRITEBACK = push_bit 3 6"

definition EPT_DEFAULTS :: ulong where
  "EPT_DEFAULTS = VMX_EPT_EXECUTABLE_MASK OR VMX_EPT_WRITABLE_MASK OR VMX_EPT_READABLE_MASK"

text \<open>
  Register numbers of \<open>enum kvm_reg\<close> (header \<open>helpers/kvm_host.h\<close>): the sixteen
  general registers in hardware encoding order, then the instruction pointer.
\<close>

definition VCPU_REGS_RAX :: nat where "VCPU_REGS_RAX = 0"
definition VCPU_REGS_RCX :: nat where "VCPU_REGS_RCX = 1"
definition VCPU_REGS_RDX :: nat where "VCPU_REGS_RDX = 2"
definition VCPU_REGS_RBX :: nat where "VCPU_REGS_RBX = 3"
definition VCPU_REGS_RSP :: nat where "VCPU_REGS_RSP = 4"
definition VCPU_REGS_RIP :: nat where "VCPU_REGS_RIP = 16"

section \<open>The virtual CPU\<close>

text \<open>The fields of the VMCS that the core reads or writes.\<close>

datatype vmcs_field =
    GUEST_RFLAGS | GUEST_RSP | GUEST_RIP | GUEST_CR0 | GUEST_CR3
  | VM_ENTRY_INTR_INFO_FIELD | CPU_BASED_VM_EXEC_CONTROL | SECONDARY_VM_EXEC_CONTROL
  | CR0_READ_SHADOW | VM_EXIT_INSTRUCTION_LEN | EXIT_QUALIFICATION
  | GUEST_PHYSICAL_ADDRESS | VM_INSTRUCTION_ERROR | VM_ENTRY_EXCEPTION_ERROR_CODE
  | VM_EXIT_REASON

text \<open>\<open>struct kvm_cpuid_entry2\<close> and \<open>struct kvm_irq_level\<close> of the KVM ABI
  (the field \<open>function\<close> is spelt \<open>func\<close>, \<open>function\<close> being a keyword).\<close>

record kvm_cpuid_entry2 =
  func :: u32
  index :: u32
  flags :: u32
  eax :: u32
  ebx :: u32
  ecx :: u32
  edx :: u32

record kvm_irq_level =
  irq :: u32
  level :: u32

text \<open>The \<open>io\<close> member of \<open>struct kvm_run\<close>, and the exit reason beside it.\<close>

record kvm_run =
  exit_reason :: u32
  io_direction :: u8
  io_size :: u8
  io_port :: u16
  io_count :: u32
  io_data_offset :: ulong

text \<open>
  \<open>struct vcpu\<close>. Fixed-size C arrays (\<open>regs\<close>, \<open>irq_level\<close>) and the I/O data
  page are total functions of the index; the code guards or masks every index it
  uses. Memory reached through a pointer is held by value (\<open>vmcs\<close>, \<open>kvm_vcpu\<close>,
  \<open>pio_data\<close>, \<open>cpuids\<close>), except for the page tables under \<open>pml4\<close>, which live
  in the kernel heap below. \<open>cpuid_count\<close> is the length of \<open>cpuids\<close>.
\<close>

record vcpu =
  vmcs :: "vmcs_field \<Rightarrow> ulong"
  kvm_vcpu :: kvm_run
  regs :: "nat \<Rightarrow> ulong"
  rflags :: ulong
  cr2 :: ulong
  pio_data :: "nat \<Rightarrow> u8"
  pending_io :: u32
  cr3_shadow :: ulong
  exit_qualification :: ulong
  exit_instruction_len :: u32
  phys :: ulong
  irq_level :: "nat \<Rightarrow> u32"
  pending_irq :: u32
  cpuids :: "kvm_cpuid_entry2 list"
  vmcs_loaded :: u32
  pml4 :: ulong
  paging :: u32

text \<open>The zero-filled \<open>struct vcpu\<close> that \<open>IOCalloc\<close> returns in \<open>KVM_CREATE_VM\<close>.\<close>

definition vcpu_zero :: vcpu where
  "vcpu_zero = \<lparr> vmcs = (\<lambda>_. 0),
     kvm_vcpu = \<lparr> exit_reason = 0, io_direction = 0, io_size = 0, io_port = 0,
                  io_count = 0, io_data_offset = 0 \<rparr>,
     regs = (\<lambda>_. 0), rflags = 0, cr2 = 0, pio_data = (\<lambda>_. 0), pending_io = 0,
     cr3_shadow = 0, exit_qualification = 0, exit_instruction_len = 0, phys = 0,
     irq_level = (\<lambda>_. 0), pending_irq = 0, cpuids = [], vmcs_loaded = 0, pml4 = 0,
     paging = 0 \<rparr>"

section \<open>Kernel heap\<close>

text \<open>
  Page-table nodes are blocks of 64-bit words in the kernel heap, addressed by the
  pointer that the allocator returned. Reading or writing through \<open>NULL\<close>, through
  a pointer that is not a live block, or past the end of a block is a memory fault
  (\<open>None\<close>). The allocator is external (IOKit); it is modelled by the sequence of
  addresses it is going to hand out, and returns \<open>NULL\<close> when that sequence is empty.
\<close>

record kheap =
  mem :: "ulong \<rightharpoonup> ulong list"
  pool :: "ulong list"

definition peek :: "kheap \<Rightarrow> ulong \<Rightarrow> nat \<Rightarrow> ulong option" where
  "peek h p i =
     (if p = 0 then None
      else case mem h p of
        None \<Rightarrow> None
      | Some b \<Rightarrow> if i < length b then Some (b ! i) else None)"

definition poke :: "kheap \<Rightarrow> ulong \<Rightarrow> nat \<Rightarrow> ulong \<Rightarrow> kheap option" where
  "poke h p i v =
     (if p = 0 then None
      else case mem h p of
        None \<Rightarrow> None
      | Some b \<Rightarrow> if i < length b then Some (h\<lparr>mem := (mem h)(p \<mapsto> b[i := v])\<rparr>) else None)"

text \<open>\<open>IOCallocAligned(size, alignment)\<close>: a zero-filled block of \<open>sz\<close> bytes, or \<open>NULL\<close>.\<close>

definition IOCallocAligned :: "nat \<Rightarrow> kheap \<Rightarrow> ulong \<times> kheap" where
  "IOCallocAligned sz h =
     (case pool h of
        [] \<Rightarrow> (0, h)
      | a # as \<Rightarrow> (a, h\<lparr>mem := (mem h)(a \<mapsto> replicate (sz div 8) 0), pool := as\<rparr>))"

section \<open>EPT functions\<close>

definition ept_init :: "kheap \<Rightarrow> vcpu \<Rightarrow> kheap \<times> vcpu" where
  "ept_init h vcpu =
     (let (p, h) = IOCallocAligned (PAGE_SIZE * 2) h in (h, vcpu\<lparr>pml4 := p\<rparr>))"

definition pml4_idx :: "ulong \<Rightarrow> nat" where
  "pml4_idx virtual_address = unat (drop_bit 39 virtual_address AND 0x1FF)"

definition pdpt_idx :: "ulong \<Rightarrow> nat" where
  "pdpt_idx virtual_address = unat (drop_bit 30 virtual_address AND 0x1FF)"

definition pd_idx :: "ulong \<Rightarrow> nat" where
  "pd_idx virtual_address = unat (drop_bit 21 virtual_address AND 0x1FF)"

definition pt_idx :: "ulong \<Rightarrow> nat" where
  "pt_idx virtual_address = unat (drop_bit 12 virtual_address AND 0x1FF)"

text \<open>
  \<open>ept_translate\<close>: the software walk through the second halves of the tables,
  where the host-virtual pointers are kept. The result 0 is ``absent''.
\<close>

definition ept_translate :: "kheap \<Rightarrow> vcpu \<Rightarrow> ulong \<Rightarrow> ulong option" where
  "ept_translate h vcpu virtual_address =
     do {
       pdpt \<leftarrow> peek h (pml4 vcpu) (PAGE_OFFSET + pml4_idx virtual_address);
       if pdpt = 0 then Some 0 else
       do {
         pd \<leftarrow> peek h pdpt (PAGE_OFFSET + pdpt_idx virtual_address);
         if pd = 0 then Some 0 else
         do {
           pt \<leftarrow> peek h pd (PAGE_OFFSET + pd_idx virtual_address);
           if pt = 0 then Some 0 else
           do {
             e \<leftarrow> peek h pt (pt_idx virtual_address);
             Some (e AND NOT (word_of_nat (PAGE_SIZE - 1)))
           }
         }
       }
     }"

text \<open>
  One level of \<open>ept_add_page\<close>: read the child pointer of entry \<open>idx\<close> of \<open>tbl\<close>
  and, if it is \<open>NULL\<close>, allocate a child of \<open>sz\<close> bytes and link it in both
  halves of \<open>tbl\<close>. The source writes this block out three times, for the pdpt,
  the pd and the pt; \<open>pa\<close> is the kernel's \<open>__pa\<close>.
\<close>

definition ept_next_level ::
  "(ulong \<Rightarrow> ulong) \<Rightarrow> nat \<Rightarrow> kheap \<Rightarrow> ulong \<Rightarrow> nat \<Rightarrow> (ulong \<times> kheap) option" where
  "ept_next_level pa sz h tbl idx =
     do {
       child \<leftarrow> peek h tbl (PAGE_OFFSET + idx);
       if child = 0 then
         do {
           let (child, h) = IOCallocAligned sz h;
           h \<leftarrow> poke h tbl (PAGE_OFFSET + idx) child;
           h \<leftarrow> poke h tbl idx (pa child OR EPT_DEFAULTS);
           Some (child, h)
         }
       else Some (child, h)
     }"

definition ept_add_page ::
  "(ulong \<Rightarrow> ulong) \<Rightarrow> kheap \<Rightarrow> vcpu \<Rightarrow> ulong \<Rightarrow> ulong \<Rightarrow> kheap option" where
  "ept_add_page pa h vcpu virtual_address physical_address =
     do {
       (pdpt, h) \<leftarrow> ept_next_level pa (PAGE_SIZE * 2) h (pml4 vcpu) (pml4_idx virtual_address);
       (pd, h) \<leftarrow> ept_next_level pa (PAGE_SIZE * 2) h pdpt (pdpt_idx virtual_address);
       (pt, h) \<leftarrow> ept_next_level pa PAGE_SIZE h pd (pd_idx virtual_address);
       poke h pt (pt_idx virtual_address)
         (physical_address OR EPT_DEFAULTS OR EPT_CACHE_WRITEBACK)
     }"

text \<open>
  Well-formedness of the tree, for the statements below: a table of level \<open>n\<close>
  (0 for a pt, which is one page; 1, 2, 3 for a pd, a pdpt, the pml4, which are two
  pages) is a live block of its size whose non-\<open>NULL\<close> child pointers are tables of
  level \<open>n - 1\<close>. The allocator's future results are distinct, non-\<open>NULL\<close> and not
  live. \<open>ept_mapped\<close> says that the walk for an address ends at the leaf entry \<open>e\<close>.
\<close>

fun ept_table_ok :: "kheap \<Rightarrow> nat \<Rightarrow> ulong \<Rightarrow> bool" where
  "ept_table_ok h 0 p =
     (p \<noteq> 0 \<and> (case mem h p of None \<Rightarrow> False | Some b \<Rightarrow> length b = PAGE_OFFSET))"
| "ept_table_ok h (Suc n) p =
     (p \<noteq> 0 \<and>
      (case mem h p of
         None \<Rightarrow> False
       | Some b \<Rightarrow> length b = 2 * PAGE_OFFSET \<and>
           (\<forall>c \<in> set (drop PAGE_OFFSET b). c \<noteq> 0 \<longrightarrow> ept_table_ok h n c)))"

definition ept_wf :: "kheap \<Rightarrow> vcpu \<Rightarrow> bool" where
  "ept_wf h vcpu = ept_table_ok h 3 (pml4 vcpu)"

definition pool_ok :: "kheap \<Rightarrow> bool" where
  "pool_ok h =
     (distinct (pool h) \<and> 0 \<notin> set (pool h) \<and> (\<forall>a \<in> set (pool h). mem h a = None))"

definition ept_mapped :: "kheap \<Rightarrow> vcpu \<Rightarrow> ulong \<Rightarrow> ulong \<Rightarrow> bool" where
  "ept_mapped h vcpu va e =
     (\<exists>pdpt pd pt. pdpt \<noteq> 0 \<and> pd \<noteq> 0 \<and> pt \<noteq> 0 \<and>
        peek h (pml4 vcpu) (PAGE_OFFSET + pml4_idx va) = Some pdpt \<and>
        peek h pdpt (PAGE_OFFSET + pdpt_idx va) = Some pd \<and>
        peek h pd (PAGE_OFFSET + pd_idx va) = Some pt \<and>
        peek h pt (pt_idx va) = Some e)"

text \<open>
  The states of the page-table manager that the code can build: \<open>ept_init\<close> on
  an empty heap, then any number of \<open>ept_add_page\<close>; the other fields of the vcpu
  do not matter. In such a state every live block is a table of one level
  (\<open>ept_levels_ok\<close>, with the level of each block given by \<open>lv\<close>): a block of
  level 0 is one page, a block of a higher level is two pages whose non-\<open>NULL\<close>
  child pointers are live blocks one level lower.
\<close>

inductive ept_reachable :: "(ulong \<Rightarrow> ulong) \<Rightarrow> kheap \<Rightarrow> vcpu \<Rightarrow> bool" for pa where
  init: "pool_ok h0 \<Longrightarrow> mem h0 = Map.empty \<Longrightarrow> pool h0 \<noteq> [] \<Longrightarrow> ept_init h0 v0 = (h, v)
           \<Longrightarrow> ept_reachable pa h v"
| add: "ept_reachable pa h v \<Longrightarrow> ept_add_page pa h v va hpa = Some h'
           \<Longrightarrow> ept_reachable pa h' v"
| other: "ept_reachable pa h v \<Longrightarrow> pml4 v' = pml4 v \<Longrightarrow> ept_reachable pa h v'"

definition ept_levels_ok :: "(ulong \<Rightarrow> nat) \<Rightarrow> kheap \<Rightarrow> bool" where
  "ept_levels_ok lv h =
     (\<forall>p b. mem h p = Some b \<longrightarrow>
        p \<noteq> 0 \<and>
        (if lv p = 0 then length b = PAGE_OFFSET
         else length b = 2 * PAGE_OFFSET \<and>
              (\<forall>c \<in> set (drop PAGE_OFFSET b). c \<noteq> 0 \<longrightarrow>
                 mem h c \<noteq> None \<and> Suc (lv c) = lv p)))"

text \<open>
  The walk for an address reaches a \<open>NULL\<close> child pointer in the pml4, in the pdpt
  or in the pd: the pdpt, the pd or the pt of the address is not allocated.
\<close>

definition ept_walk_unallocated :: "kheap \<Rightarrow> vcpu \<Rightarrow> ulong \<Rightarrow> bool" where
  "ept_walk_unallocated h vcpu va =
     (peek h (pml4 vcpu) (PAGE_OFFSET + pml4_idx va) = Some 0 \<or>
      (\<exists>pdpt. pdpt \<noteq> 0 \<and> peek h (pml4 vcpu) (PAGE_OFFSET + pml4_idx va) = Some pdpt \<and>
         (peek h pdpt (PAGE_OFFSET + pdpt_idx va) = Some 0 \<or>
          (\<exists>pd. pd \<noteq> 0 \<and> peek h pdpt (PAGE_OFFSET + pdpt_idx va) = Some pd \<and>
             peek h pd (PAGE_OFFSET + pd_idx va) = Some 0))))"

section \<open>Host platform\<close>

text \<open>
  What the handlers print with \<open>printf\<close>, in order, is kept as a list of diagnostics.
\<close>

datatype diag =
    Diag_rdmsr ulong
  | Diag_wrmsr ulong
  | Diag_ept_violation ulong
  | Diag_got_signal
  | Diag_apic_access ulong
  | Diag_load_cr3 ulong ulong
  | Diag_paging_on
  | Diag_paging_off
  | Diag_cant_emulate_cr ulong
  | Diag_task_switch
  | Diag_exit nat ulong ulong ulong ulong ulong ulong
  | Diag_exit_from_timeout nat ulong
  | Diag_mapping ulong u32 u32 ulong ulong
  | Diag_wire_pages_failed
  | Diag_couldnt_find_vpage ulong

text \<open>
  The machine around the vcpu: the processor's model-specific registers, the rest of
  the world (guest memory, devices, time, the calling process), and the kernel log.
\<close>

record 'w machine =
  cpu :: vcpu
  host_msr :: "u32 \<Rightarrow> ulong"
  world :: 'w
  dmesg :: "diag list"

text \<open>
  The external collaborators, as parameters: the world switch (the \<open>asm\<close> block of
  \<open>kvm_run\<close> with \<open>init_host_values\<close>), which runs the guest from the register file,
  \<open>cr2\<close> and the VMCS until the next exit; the \<open>cpuid\<close> instruction, a function of
  \<open>eax\<close> and \<open>ecx\<close>; \<open>proc_issignal\<close> on the calling process; the kernel's \<open>__pa\<close>;
  and the IOKit memory descriptor of a user range (address, size): the status of
  \<open>prepare\<close> and the physical segment at an offset.
\<close>

record 'w platform =
  vmx_enter :: "'w \<Rightarrow> (nat \<Rightarrow> ulong) \<Rightarrow> ulong \<Rightarrow> (vmcs_field \<Rightarrow> ulong)
                  \<Rightarrow> 'w \<times> (nat \<Rightarrow> ulong) \<times> ulong \<times> (vmcs_field \<Rightarrow> ulong)"
  cpuid :: "u32 \<Rightarrow> u32 \<Rightarrow> u32 \<times> u32 \<times> u32 \<times> u32"
  proc_issignal :: "'w \<Rightarrow> bool"
  phys_addr :: "ulong \<Rightarrow> ulong"
  md_prepare :: "'w \<Rightarrow> ulong \<Rightarrow> ulong \<Rightarrow> u32"
  md_getPhysicalSegment :: "'w \<Rightarrow> ulong \<Rightarrow> ulong \<Rightarrow> ulong \<Rightarrow> ulong"

text \<open>
  The processor's MSR instructions (hardware, not code of this repository):
  \<open>rdmsr\<close> loads \<open>edx:eax\<close> from the register that \<open>ecx\<close> selects, \<open>wrmsr\<close> stores
  \<open>edx:eax\<close> into it.
\<close>

definition rdmsr :: "(u32 \<Rightarrow> ulong) \<Rightarrow> u32 \<Rightarrow> u32 \<times> u32" where
  "rdmsr msr c = (ucast (msr c), ucast (drop_bit 32 (msr c)))"

definition wrmsr :: "(u32 \<Rightarrow> ulong) \<Rightarrow> u32 \<Rightarrow> u32 \<Rightarrow> u32 \<Rightarrow> (u32 \<Rightarrow> ulong)" where
  "wrmsr msr c a d = msr(c := push_bit 32 (ucast d) OR ucast a)"

definition printk :: "diag \<Rightarrow> 'w machine \<Rightarrow> 'w machine" where
  "printk d m = m\<lparr>dmesg := dmesg m @ [d]\<rparr>"

text \<open>
  Modelled from the spec: the VMCS accessors are in \<open>helpers/vmcs.h\<close>, which is not
  among the sources; the VMCS is the ``hardware-visible control structure'', a store
  of fields, read and written at 32 or 64 bits.
\<close>

definition vmcs_readl :: "vmcs_field \<Rightarrow> vcpu \<Rightarrow> ulong" where
  "vmcs_readl f v = vmcs v f"

definition vmcs_read32 :: "vmcs_field \<Rightarrow> vcpu \<Rightarrow> u32" where
  "vmcs_read32 f v = ucast (vmcs v f)"

definition vmcs_writel :: "vmcs_field \<Rightarrow> ulong \<Rightarrow> vcpu \<Rightarrow> vcpu" where
  "vmcs_writel f x v = v\<lparr>vmcs := (vmcs v)(f := x)\<rparr>"

definition vmcs_write64 :: "vmcs_field \<Rightarrow> ulong \<Rightarrow> vcpu \<Rightarrow> vcpu" where
  "vmcs_write64 f x v = v\<lparr>vmcs := (vmcs v)(f := x)\<rparr>"

definition vmcs_write32 :: "vmcs_field \<Rightarrow> u32 \<Rightarrow> vcpu \<Rightarrow> vcpu" where
  "vmcs_write32 f x v = v\<lparr>vmcs := (vmcs v)(f := ucast x)\<rparr>"

definition LOAD_VMCS :: "vcpu \<Rightarrow> vcpu" where
  "LOAD_VMCS v = v\<lparr>vmcs_loaded := 1\<rparr>"

definition RELEASE_VMCS :: "vcpu \<Rightarrow> vcpu" where
  "RELEASE_VMCS v = v\<lparr>vmcs_loaded := 0\<rparr>"

text \<open>
  Modelled from the spec: the exit-reason codes and control bits are declared in
  \<open>asm/uapi_vmx.h\<close> and \<open>linux/kvm.h\<close>, which are not among the sources. The
  dispatcher is ``a flat table indexed by a dense integer exit-reason code''; the
  codes below are the ones the processor reports, and the table has one slot more
  than its largest index.
\<close>

definition EXIT_REASON_EXTERNAL_INTERRUPT :: ulong where "EXIT_REASON_EXTERNAL_INTERRUPT = 1"
definition EXIT_REASON_PENDING_INTERRUPT :: ulong where "EXIT_REASON_PENDING_INTERRUPT = 7"
definition EXIT_REASON_TASK_SWITCH :: ulong where "EXIT_REASON_TASK_SWITCH = 9"
definition EXIT_REASON_CPUID :: ulong where "EXIT_REASON_CPUID = 10"
definition EXIT_REASON_CR_ACCESS :: ulong where "EXIT_REASON_CR_ACCESS = 28"
definition EXIT_REASON_DR_ACCESS :: ulong where "EXIT_REASON_DR_ACCESS = 29"
definition EXIT_REASON_IO_INSTRUCTION :: ulong where "EXIT_REASON_IO_INSTRUCTION = 30"
definition EXIT_REASON_MSR_READ :: ulong where "EXIT_REASON_MSR_READ = 31"
definition EXIT_REASON_MSR_WRITE :: ulong where "EXIT_REASON_MSR_WRITE = 32"
definition EXIT_REASON_APIC_ACCESS :: ulong where "EXIT_REASON_APIC_ACCESS = 44"
definition EXIT_REASON_EPT_VIOLATION :: ulong where "EXIT_REASON_EPT_VIOLATION = 48"
definition EXIT_REASON_PREEMPTION_TIMER :: ulong where "EXIT_REASON_PREEMPTION_TIMER = 52"

definition kvm_vmx_max_exit_handlers :: ulong where
  "kvm_vmx_max_exit_handlers = 53"

definition KVM_EXIT_IO :: u32 where "KVM_EXIT_IO = 2"
definition KVM_EXIT_IO_IN :: u8 where "KVM_EXIT_IO_IN = 0"
definition KVM_EXIT_IO_OUT :: u8 where "KVM_EXIT_IO_OUT = 1"
definition KVM_PIO_PAGE_OFFSET :: nat where "KVM_PIO_PAGE_OFFSET = 1"

definition INTR_INFO_VALID_MASK :: ulong where "INTR_INFO_VALID_MASK = 0x80000000"
definition INTR_TYPE_EXT_INTR :: ulong where "INTR_TYPE_EXT_INTR = 0"
definition CPU_BASED_VIRTUAL_INTR_PENDING :: u32 where "CPU_BASED_VIRTUAL_INTR_PENDING = 0x4"
definition SECONDARY_EXEC_UNRESTRICTED_GUEST :: u32 where "SECONDARY_EXEC_UNRESTRICTED_GUEST = 0x80"
definition CONTROL_REG_ACCESS_NUM :: ulong where "CONTROL_REG_ACCESS_NUM = 0x7"
definition CONTROL_REG_ACCESS_TYPE :: ulong where "CONTROL_REG_ACCESS_TYPE = 0x30"
definition CONTROL_REG_ACCESS_REG :: ulong where "CONTROL_REG_ACCESS_REG = 0xf00"

section \<open>Handlers for the exit conditions\<close>

definition skip_emulated_instruction :: "vcpu \<Rightarrow> vcpu" where
  "skip_emulated_instruction v =
     v\<lparr>regs := (regs v)(VCPU_REGS_RIP := regs v VCPU_REGS_RIP + scast (exit_instruction_len v))\<rparr>"

text \<open>\<open>memcpy\<close> of the first \<open>n\<close> bytes of a little-endian 64-bit value to and from the I/O page.\<close>

definition memcpy_to_pio :: "(nat \<Rightarrow> u8) \<Rightarrow> ulong \<Rightarrow> nat \<Rightarrow> (nat \<Rightarrow> u8)" where
  "memcpy_to_pio pio val n = (\<lambda>k. if k < n then ucast (drop_bit (8 * k) val) else pio k)"

definition memcpy_from_pio :: "(nat \<Rightarrow> u8) \<Rightarrow> nat \<Rightarrow> ulong" where
  "memcpy_from_pio pio n = foldr (\<lambda>k acc. acc OR push_bit (8 * k) (ucast (pio k))) [0..<n] 0"

definition handle_io :: "vcpu \<Rightarrow> int \<times> vcpu" where
  "handle_io v =
     (let exit_qualification = exit_qualification v;
          in' = (exit_qualification AND 8 \<noteq> 0);
          v = v\<lparr>kvm_vcpu := (kvm_vcpu v)\<lparr>
                 io_direction := (if in' then KVM_EXIT_IO_IN else KVM_EXIT_IO_OUT),
                 io_size := ucast ((exit_qualification AND 7) + 1),
                 io_port := ucast (drop_bit 16 exit_qualification),
                 io_count := 1,
                 io_data_offset := word_of_nat (KVM_PIO_PAGE_OFFSET * PAGE_SIZE)\<rparr>\<rparr>;
          v = (if \<not> in' then
                 (let val = regs v VCPU_REGS_RAX;
                      sz = (ucast (io_size (kvm_vcpu v)) :: u32) * io_count (kvm_vcpu v)
                  in v\<lparr>pio_data := memcpy_to_pio (pio_data v) val (min (unat sz) 8)\<rparr>)
               else v\<lparr>pending_io := 1\<rparr>);
          v = v\<lparr>kvm_vcpu := (kvm_vcpu v)\<lparr>exit_reason := KVM_EXIT_IO\<rparr>\<rparr>;
          v = skip_emulated_instruction v
      in (0, v))"

text \<open>
  \<open>handle_cpuid\<close>. The loop over the override table stops at the first entry whose
  function and index match; without a match the real instruction runs.
\<close>

definition handle_cpuid :: "'w platform \<Rightarrow> vcpu \<Rightarrow> int \<times> vcpu" where
  "handle_cpuid pf v =
     (let function = (ucast (regs v VCPU_REGS_RAX) :: u32);
          ecx0 = (ucast (regs v VCPU_REGS_RCX) :: u32);
          (eax', ebx', ecx', edx') =
            (case find (\<lambda>e. func e = function \<and> index e = ecx0) (cpuids v) of
               Some e \<Rightarrow> (eax e, ebx e, ecx e, edx e)
             | None \<Rightarrow> cpuid pf function ecx0);
          (ecx', edx') =
            (if function = 1 then
               (let edx' = edx' AND NOT (push_bit 25 1 OR push_bit 26 1);
                    ecx' = ecx' AND NOT (push_bit 0 1 OR push_bit 9 1);
                    ecx' = ecx' AND NOT (push_bit 19 1 OR push_bit 20 1);
                    ecx' = ecx' AND NOT (push_bit 26 1 OR push_bit 27 1)
                in (ecx', edx'))
             else (ecx', edx'));
          v = v\<lparr>regs := (regs v)(VCPU_REGS_RAX := ucast eax')\<rparr>;
          v = v\<lparr>regs := (regs v)(VCPU_REGS_RBX := ucast ebx')\<rparr>;
          v = v\<lparr>regs := (regs v)(VCPU_REGS_RCX := ucast ecx')\<rparr>;
          v = v\<lparr>regs := (regs v)(VCPU_REGS_RDX := ucast edx')\<rparr>;
          v = skip_emulated_instruction v
      in (1, v))"

definition handle_rdmsr :: "'w machine \<Rightarrow> int \<times> 'w machine" where
  "handle_rdmsr m =
     (let m = printk (Diag_rdmsr (regs (cpu m) VCPU_REGS_RCX)) m;
          v = cpu m;
          (a, d) = rdmsr (host_msr m) (ucast (regs v VCPU_REGS_RCX));
          v = v\<lparr>regs := (regs v)(VCPU_REGS_RAX := ucast a, VCPU_REGS_RDX := ucast d)\<rparr>;
          v = skip_emulated_instruction v
      in (1, m\<lparr>cpu := v\<rparr>))"

definition handle_wrmsr :: "'w machine \<Rightarrow> int \<times> 'w machine" where
  "handle_wrmsr m =
     (let m = printk (Diag_wrmsr (regs (cpu m) VCPU_REGS_RCX)) m;
          v = skip_emulated_instruction (cpu m)
      in (1, m\<lparr>cpu := v\<rparr>))"

definition handle_ept_violation :: "'w machine \<Rightarrow> int \<times> 'w machine" where
  "handle_ept_violation m =
     (let m = printk (Diag_ept_violation (phys (cpu m))) m;
          v = skip_emulated_instruction (cpu m)
      in (1, m\<lparr>cpu := v\<rparr>))"

definition handle_preemption_timer :: "vcpu \<Rightarrow> int \<times> vcpu" where
  "handle_preemption_timer v = (1, v)"

definition handle_external_interrupt :: "'w platform \<Rightarrow> 'w machine \<Rightarrow> int \<times> 'w machine" where
  "handle_external_interrupt pf m =
     (let v = cpu m;
          v = (if exit_qualification v = 0 then v\<lparr>pending_irq := pending_irq v OR 1\<rparr> else v);
          m = m\<lparr>cpu := v\<rparr>
      in if proc_issignal pf (world m) then (0, printk Diag_got_signal m) else (1, m))"

definition handle_apic_access :: "'w machine \<Rightarrow> int \<times> 'w machine" where
  "handle_apic_access m =
     (let m = printk (Diag_apic_access (exit_qualification (cpu m))) m;
          v = skip_emulated_instruction (cpu m)
      in (1, m\<lparr>cpu := v\<rparr>))"

definition handle_interrupt_window :: "vcpu \<Rightarrow> int \<times> vcpu" where
  "handle_interrupt_window v = (1, v)"

definition handle_dr :: "vcpu \<Rightarrow> int \<times> vcpu" where
  "handle_dr v = (1, skip_emulated_instruction v)"

text \<open>
  \<open>handle_cr\<close>. The constant \<open>1 << 31\<close> is an \<open>int\<close>; where the source combines it
  with an \<open>unsigned long\<close> or passes it as a 64-bit value it is sign-extended.
  \<open>ept_translate\<close> is called for the diagnostic only, but it does walk the tables.
\<close>

definition handle_cr :: "kheap \<Rightarrow> 'w machine \<Rightarrow> (int \<times> 'w machine) option" where
  "handle_cr h m =
     (let v = cpu m;
          cr_num = exit_qualification v AND CONTROL_REG_ACCESS_NUM;
          cr_type = drop_bit 4 (exit_qualification v AND CONTROL_REG_ACCESS_TYPE);
          cr_to_reg = unat (drop_bit 8 (exit_qualification v AND CONTROL_REG_ACCESS_REG))
      in do {
        m \<leftarrow>
          (if cr_num = 3 then
             (if cr_type = 0 then
                do {
                  let v = v\<lparr>cr3_shadow := regs v cr_to_reg\<rparr>;
                  pa \<leftarrow> ept_translate h v (cr3_shadow v);
                  let m = printk (Diag_load_cr3 (cr3_shadow v) pa) m;
                  Some (m\<lparr>cpu := vmcs_writel GUEST_CR3 (cr3_shadow v) v\<rparr>)
                }
              else if cr_type = 1 then
                Some (m\<lparr>cpu := v\<lparr>regs := (regs v)(cr_to_reg := cr3_shadow v)\<rparr>\<rparr>)
              else Some m)
           else if cr_num = 0 then
             (if cr_type = 0 then
                (let val = regs v cr_to_reg;
                     v = vmcs_writel GUEST_CR0 val v
                 in if val AND scast (push_bit 31 1 :: u32) \<noteq> 0 then
                      (let m = printk Diag_paging_on m;
                           v = v\<lparr>paging := 1\<rparr>;
                           v = vmcs_write32 SECONDARY_VM_EXEC_CONTROL
                                 (vmcs_read32 SECONDARY_VM_EXEC_CONTROL v
                                    AND NOT SECONDARY_EXEC_UNRESTRICTED_GUEST) v;
                           v = vmcs_write64 CR0_READ_SHADOW (scast (push_bit 31 1 :: u32)) v
                       in Some (m\<lparr>cpu := v\<rparr>))
                    else
                      (let m = printk Diag_paging_off m;
                           v = v\<lparr>paging := 0\<rparr>;
                           v = vmcs_write32 SECONDARY_VM_EXEC_CONTROL
                                 (vmcs_read32 SECONDARY_VM_EXEC_CONTROL v
                                    OR SECONDARY_EXEC_UNRESTRICTED_GUEST) v;
                           v = vmcs_write64 CR0_READ_SHADOW 0 v
                       in Some (m\<lparr>cpu := v\<rparr>)))
              else Some m)
           else Some (printk (Diag_cant_emulate_cr cr_num) m));
        Some (1, m\<lparr>cpu := skip_emulated_instruction (cpu m)\<rparr>)
      })"

definition handle_task_switch :: "'w machine \<Rightarrow> int \<times> 'w machine" where
  "handle_task_switch m = (1, printk Diag_task_switch m)"

text \<open>
  The table \<open>kvm_vmx_exit_handlers\<close>. Handlers share one C signature; here each is
  lifted to the machine, the platform and the heap. A slot that the initialiser
  does not name is \<open>NULL\<close>.
\<close>

type_synonym 'w exit_handler =
  "'w platform \<Rightarrow> kheap \<Rightarrow> 'w machine \<Rightarrow> (int \<times> 'w machine) option"

definition on_vcpu :: "(vcpu \<Rightarrow> int \<times> vcpu) \<Rightarrow> 'w exit_handler" where
  "on_vcpu f pf h m = (let (r, v) = f (cpu m) in Some (r, m\<lparr>cpu := v\<rparr>))"

definition on_machine :: "('w machine \<Rightarrow> int \<times> 'w machine) \<Rightarrow> 'w exit_handler" where
  "on_machine f pf h m = Some (f m)"

definition kvm_vmx_exit_handlers :: "ulong \<Rightarrow> 'w exit_handler option" where
  "kvm_vmx_exit_handlers = map_of
     [ (EXIT_REASON_EXTERNAL_INTERRUPT, \<lambda>pf. on_machine (handle_external_interrupt pf) pf),
       (EXIT_REASON_CPUID, \<lambda>pf. on_vcpu (handle_cpuid pf) pf),
       (EXIT_REASON_IO_INSTRUCTION, on_vcpu handle_io),
       (EXIT_REASON_MSR_READ, on_machine handle_rdmsr),
       (EXIT_REASON_MSR_WRITE, on_machine handle_wrmsr),
       (EXIT_REASON_EPT_VIOLATION, on_machine handle_ept_violation),
       (EXIT_REASON_PREEMPTION_TIMER, on_vcpu handle_preemption_timer),
       (EXIT_REASON_APIC_ACCESS, on_machine handle_apic_access),
       (EXIT_REASON_PENDING_INTERRUPT, on_vcpu handle_interrupt_window),
       (EXIT_REASON_CR_ACCESS, \<lambda>pf h m. handle_cr h m),
       (EXIT_REASON_DR_ACCESS, on_vcpu handle_dr),
       (EXIT_REASON_TASK_SWITCH, on_machine handle_task_switch) ]"

section \<open>World switch and run loop\<close>

text \<open>
  \<open>kvm_run\<close>: store the backing registers to the VMCS, switch to the guest, and read
  them back after the exit.
\<close>

definition kvm_run :: "'w platform \<Rightarrow> 'w machine \<Rightarrow> 'w machine" where
  "kvm_run pf m =
     (let v = cpu m;
          v = vmcs_writel GUEST_RFLAGS (rflags v) v;
          v = vmcs_writel GUEST_RSP (regs v VCPU_REGS_RSP) v;
          v = vmcs_writel GUEST_RIP (regs v VCPU_REGS_RIP) v;
          (w, r, c2, vm) = vmx_enter pf (world m) (regs v) (cr2 v) (vmcs v);
          v = v\<lparr>regs := r, cr2 := c2, vmcs := vm\<rparr>;
          v = v\<lparr>rflags := vmcs_readl GUEST_RFLAGS v\<rparr>;
          v = v\<lparr>regs := (regs v)(VCPU_REGS_RSP := vmcs_readl GUEST_RSP v)\<rparr>;
          v = v\<lparr>regs := (regs v)(VCPU_REGS_RIP := vmcs_readl GUEST_RIP v)\<rparr>
      in m\<lparr>cpu := v, world := w\<rparr>)"

text \<open>
  The injection scan at the top of the loop body: the lowest pending line is taken,
  its bit cleared, and the interruption information built from it.
\<close>

definition inject_pending_irq :: "vcpu \<Rightarrow> ulong \<times> vcpu" where
  "inject_pending_irq v =
     (case find (\<lambda>i. pending_irq v AND push_bit i 1 \<noteq> 0) [0..<IRQ_MAX] of
        None \<Rightarrow> (0, v)
      | Some i \<Rightarrow>
          (if paging v \<noteq> 0
           then INTR_INFO_VALID_MASK OR INTR_TYPE_EXT_INTR OR word_of_nat (i + 0x30)
           else INTR_INFO_VALID_MASK OR INTR_TYPE_EXT_INTR OR word_of_nat (i + 8),
           v\<lparr>pending_irq := pending_irq v AND NOT (push_bit i 1)\<rparr>))"

text \<open>
  The dispatch in the loop body: the handler of the exit reason is called if the
  reason is inside the table and its slot is not \<open>NULL\<close>; otherwise \<open>cont\<close> is 0.
\<close>

definition dispatch_exit ::
  "'w platform \<Rightarrow> kheap \<Rightarrow> ulong \<Rightarrow> 'w machine \<Rightarrow> (int \<times> 'w machine) option" where
  "dispatch_exit pf h exit_reason' m =
     (if exit_reason' < kvm_vmx_max_exit_handlers then
        (case kvm_vmx_exit_handlers exit_reason' of
           Some handler \<Rightarrow> handler pf h m
         | None \<Rightarrow> Some (0, m))
      else Some (0, m))"

text \<open>
  What each handler of the table guarantees on a well-formed tree: it returns, with
  0 or 1, and leaves the root pointer of the tree alone.
\<close>

definition exit_handler_ok :: "'w exit_handler \<Rightarrow> bool" where
  "exit_handler_ok handler =
     (\<forall>pf h m. ept_wf h (cpu m) \<longrightarrow>
        (\<exists>c m'. handler pf h m = Some (c, m') \<and> pml4 (cpu m') = pml4 (cpu m) \<and>
                  (c = 0 \<or> c = 1)))"

text \<open>
  The body of the \<open>while\<close> loop of \<open>kvm_run_wrapper\<close>, in two parts. The first
  part, \<open>enter_guest\<close>, goes from the top of the body to the capture of the exit
  record: interrupt injection, the world switch, and the copy of the exit fields
  into the vcpu. The local variable \<open>exit_reason\<close> is spelt \<open>exit_reason'\<close>, apart
  from the field of \<open>struct kvm_run\<close>.
\<close>

definition enter_guest :: "'w platform \<Rightarrow> ulong \<Rightarrow> 'w machine \<Rightarrow> 'w machine" where
  "enter_guest pf exit_reason' m =
     (let v = cpu m;
          (intr_info, v) =
            (if exit_reason' = EXIT_REASON_PENDING_INTERRUPT then inject_pending_irq v else (0, v));
          v = LOAD_VMCS v;
          v = (if intr_info \<noteq> 0 then vmcs_write32 VM_ENTRY_INTR_INFO_FIELD (ucast intr_info) v
               else v);
          v = (if pending_irq v \<noteq> 0 then
                 vmcs_write32 CPU_BASED_VM_EXEC_CONTROL
                   (vmcs_read32 CPU_BASED_VM_EXEC_CONTROL v OR CPU_BASED_VIRTUAL_INTR_PENDING) v
               else
                 vmcs_write32 CPU_BASED_VM_EXEC_CONTROL
                   (vmcs_read32 CPU_BASED_VM_EXEC_CONTROL v AND NOT CPU_BASED_VIRTUAL_INTR_PENDING) v);
          m = kvm_run pf (m\<lparr>cpu := v\<rparr>);
          v = cpu m;
          v = v\<lparr>exit_instruction_len := vmcs_read32 VM_EXIT_INSTRUCTION_LEN v\<rparr>;
          v = v\<lparr>exit_qualification := vmcs_readl EXIT_QUALIFICATION v\<rparr>;
          v = v\<lparr>phys := vmcs_readl GUEST_PHYSICAL_ADDRESS v\<rparr>
      in m\<lparr>cpu := v\<rparr>)"

text \<open>
  The second part reads the error fields and the exit reason, dispatches, releases
  the VMCS and prints the exit. One pass yields the exit reason, the handler's
  result \<open>cont\<close> and the instruction error; \<open>maxcont\<close> is the counter after its
  increment.
\<close>

record run_step =
  step_reason :: ulong
  step_cont :: int
  step_error :: ulong

definition run_iteration ::
  "'w platform \<Rightarrow> kheap \<Rightarrow> nat \<Rightarrow> ulong \<Rightarrow> 'w machine \<Rightarrow> (run_step \<times> 'w machine) option" where
  "run_iteration pf h maxcont exit_reason' m =
     (let m = enter_guest pf exit_reason' m;
          error = (ucast (vmcs_read32 VM_INSTRUCTION_ERROR (cpu m)) :: ulong);
          entry_error = (ucast (vmcs_read32 VM_ENTRY_EXCEPTION_ERROR_CODE (cpu m)) :: ulong);
          exit_reason' = (ucast (vmcs_read32 VM_EXIT_REASON (cpu m)) :: ulong)
      in do {
        (cont, m) \<leftarrow> dispatch_exit pf h exit_reason' m;
        let m = m\<lparr>cpu := RELEASE_VMCS (cpu m)\<rparr>;
        let m =
          (if exit_reason' \<noteq> EXIT_REASON_IO_INSTRUCTION \<and>
              exit_reason' \<noteq> EXIT_REASON_PREEMPTION_TIMER \<and>
              exit_reason' \<noteq> EXIT_REASON_EXTERNAL_INTERRUPT \<and>
              exit_reason' \<noteq> EXIT_REASON_PENDING_INTERRUPT \<and>
              exit_reason' \<noteq> EXIT_REASON_TASK_SWITCH \<and>
              exit_reason' \<noteq> EXIT_REASON_CPUID
           then printk (Diag_exit maxcont entry_error exit_reason' error (phys (cpu m))
                          (regs (cpu m) VCPU_REGS_RIP) (regs (cpu m) VCPU_REGS_RSP)) m
           else m);
        Some (\<lparr>step_reason = exit_reason', step_cont = cont, step_error = error\<rparr>, m)
      })"

text \<open>
  The loop \<open>while (cont && (maxcont++) < 1000) { ...; if (error != 0) break; }\<close>.
  The counter is incremented whenever it is tested. The steps taken are collected
  in \<open>tr\<close>, for the statements about a run; the code keeps no such list.
\<close>

function kvm_run_loop ::
  "'w platform \<Rightarrow> kheap \<Rightarrow> nat \<Rightarrow> int \<Rightarrow> ulong \<Rightarrow> 'w machine \<Rightarrow> run_step list
     \<Rightarrow> (nat \<times> int \<times> ulong \<times> 'w machine \<times> run_step list) option" where
  "kvm_run_loop pf h maxcont cont exit_reason' m tr =
     (if cont \<noteq> 0 \<and> maxcont < 1000 then
        (case run_iteration pf h (Suc maxcont) exit_reason' m of
           None \<Rightarrow> None
         | Some (s, m') \<Rightarrow>
             if step_error s \<noteq> 0
             then Some (Suc maxcont, step_cont s, step_reason s, m', tr @ [s])
             else kvm_run_loop pf h (Suc maxcont) (step_cont s) (step_reason s) m' (tr @ [s]))
      else Some (if cont \<noteq> 0 then Suc maxcont else maxcont, cont, exit_reason', m, tr))"
  by pat_completeness auto
termination
  by (relation "measure (\<lambda>(pf, h, maxcont, cont, exit_reason', m, tr). 1000 - maxcont)") auto

declare kvm_run_loop.simps [simp del]

text \<open>
  The passes of the loop as a chain, for the statements about a run:
  \<open>run_steps pf h n r m tr\<close> is the machine after the passes listed in \<open>tr\<close>, taken
  one after another from the counter \<open>n\<close>, the last exit reason \<open>r\<close> and the
  machine \<open>m\<close>, each step of \<open>tr\<close> being what \<open>run_iteration\<close> yields there.
\<close>

fun run_steps ::
  "'w platform \<Rightarrow> kheap \<Rightarrow> nat \<Rightarrow> ulong \<Rightarrow> 'w machine \<Rightarrow> run_step list \<Rightarrow> 'w machine option" where
  "run_steps pf h n r m [] = Some m"
| "run_steps pf h n r m (s # ss) =
     (case run_iteration pf h (Suc n) r m of
        None \<Rightarrow> None
      | Some (s', m') \<Rightarrow>
          if s' = s then run_steps pf h (Suc n) (step_reason s) m' ss else None)"

text \<open>
  What each handler of the table guarantees whenever it returns: the result is 0 or
  1, and a handler that returns 1 leaves the run structure alone.
\<close>

definition exit_handler_keeps_run :: "'w exit_handler \<Rightarrow> bool" where
  "exit_handler_keeps_run handler =
     (\<forall>pf h m c m'. handler pf h m = Some (c, m') \<longrightarrow>
        (c = 0 \<or> c = 1) \<and> (c \<noteq> 0 \<longrightarrow> kvm_vcpu (cpu m') = kvm_vcpu (cpu m)))"

text \<open>
  \<open>kvm_run_wrapper\<close>. Before the loop (\<open>kvm_run_prologue\<close>) a read left pending by
  the last I/O exit is completed from the I/O page, and the exit reason of the run
  structure is cleared. After the loop the timeout diagnostic is printed if \<open>cont\<close>
  is 1, and 0 is returned.
\<close>

definition kvm_run_prologue :: "vcpu \<Rightarrow> vcpu" where
  "kvm_run_prologue v =
     (let v = (if pending_io v \<noteq> 0 then
                 (let sz = (ucast (io_size (kvm_vcpu v)) :: u32) * io_count (kvm_vcpu v);
                      val = memcpy_from_pio (pio_data v) (min (unat sz) 8)
                  in v\<lparr>regs := (regs v)(VCPU_REGS_RAX := val), pending_io := 0\<rparr>)
               else v)
      in v\<lparr>kvm_vcpu := (kvm_vcpu v)\<lparr>exit_reason := 0\<rparr>\<rparr>)"

definition kvm_run_wrapper ::
  "'w platform \<Rightarrow> kheap \<Rightarrow> 'w machine \<Rightarrow> (int \<times> 'w machine \<times> run_step list) option" where
  "kvm_run_wrapper pf h m =
     (let v = kvm_run_prologue (cpu m)
      in do {
        (maxcont, cont, exit_reason', m, tr) \<leftarrow> kvm_run_loop pf h 0 1 0 (m\<lparr>cpu := v\<rparr>) [];
        let m = (if cont = 1 then printk (Diag_exit_from_timeout maxcont exit_reason') m else m);
        Some (0, m, tr)
      })"

section \<open>Control surface\<close>

definition kvm_irq_line :: "vcpu \<Rightarrow> kvm_irq_level \<Rightarrow> int \<times> vcpu" where
  "kvm_irq_line v irq' =
     (let v =
        (if irq irq' < word_of_nat IRQ_MAX then
           (let n = unat (irq irq');
                v = (if irq_level v n = 0 \<and> level irq' = 1
                     then v\<lparr>pending_irq := pending_irq v OR push_bit n 1\<rparr>
                     else v)
            in v\<lparr>irq_level := (irq_level v)(n := level irq')\<rparr>)
         else v)
      in (0, v))"

text \<open>\<open>struct kvm_userspace_memory_region\<close> of the KVM ABI.\<close>

record kvm_userspace_memory_region =
  slot :: u32
  mr_flags :: u32
  guest_phys_addr :: ulong
  memory_size :: ulong
  userspace_addr :: ulong

text \<open>
  The \<open>for\<close> loop of \<open>kvm_set_user_memory_region\<close>, from offset \<open>off\<close> on. The
  offset is an \<open>unsigned long\<close> and wraps around, so the loop need not end; a run
  that faults in \<open>ept_add_page\<close> or does not end has no result.
\<close>

partial_function (option) kvm_set_user_memory_region_loop ::
  "'w platform \<Rightarrow> kvm_userspace_memory_region \<Rightarrow> 'w machine \<Rightarrow> kheap \<Rightarrow> ulong
     \<Rightarrow> (int \<times> kheap \<times> 'w machine) option" where
  "kvm_set_user_memory_region_loop pf mr m h off =
     (if off < memory_size mr then
        (let va = userspace_addr mr + off;
             pa = md_getPhysicalSegment pf (world m) (userspace_addr mr) (memory_size mr) off
         in if pa \<noteq> 0 then
              do {
                h \<leftarrow> ept_add_page (phys_addr pf) h (cpu m) (guest_phys_addr mr + off) pa;
                kvm_set_user_memory_region_loop pf mr m h (off + word_of_nat PAGE_SIZE)
              }
            else Some (EINVAL, h, printk (Diag_couldnt_find_vpage va) m))
      else Some (0, h, m))"

definition kvm_set_user_memory_region ::
  "'w platform \<Rightarrow> kheap \<Rightarrow> 'w machine \<Rightarrow> kvm_userspace_memory_region
     \<Rightarrow> (int \<times> kheap \<times> 'w machine) option" where
  "kvm_set_user_memory_region pf h m mr =
     (let m = printk (Diag_mapping (userspace_addr mr) (mr_flags mr) (slot mr)
                        (guest_phys_addr mr) (guest_phys_addr mr + memory_size mr)) m
      in if md_prepare pf (world m) (userspace_addr mr) (memory_size mr) \<noteq> 0
         then Some (EINVAL, h, printk Diag_wire_pages_failed m)
         else kvm_set_user_memory_region_loop pf mr m h 0)"

section \<open>Properties of the page-table manager\<close>

lemmas VCPU_REGS_defs =
  VCPU_REGS_RAX_def VCPU_REGS_RCX_def VCPU_REGS_RDX_def VCPU_REGS_RBX_def
  VCPU_REGS_RSP_def VCPU_REGS_RIP_def

lemma idx_lt: "unat ((w :: ulong) AND 0x1FF) < 512"
proof -
  have "unat (w AND 0x1FF) \<le> unat (0x1FF :: ulong)"
    by (rule word_and_le1 [THEN word_le_nat_alt [THEN iffD1]])
  then show ?thesis by simp
qed

lemma pml4_idx_lt: "pml4_idx va < 512" by (simp add: pml4_idx_def idx_lt)
lemma pdpt_idx_lt: "pdpt_idx va < 512" by (simp add: pdpt_idx_def idx_lt)
lemma pd_idx_lt: "pd_idx va < 512" by (simp add: pd_idx_def idx_lt)
lemma pt_idx_lt: "pt_idx va < 512" by (simp add: pt_idx_def idx_lt)

lemma peek_poke_same: "poke h p i v = Some h' \<Longrightarrow> peek h' p i = Some v"
  by (auto simp: poke_def peek_def split: if_splits option.splits)

lemma peek_poke_other:
  "poke h p i v = Some h' \<Longrightarrow> q \<noteq> p \<or> j \<noteq> i \<Longrightarrow> peek h' q j = peek h q j"
  by (auto simp: poke_def peek_def split: if_splits option.splits)

lemma poke_pool_ok: "poke h p i v = Some h' \<Longrightarrow> pool_ok h \<Longrightarrow> pool_ok h'"
  by (auto simp: poke_def pool_ok_def split: if_splits option.splits)

lemma peek_alloc:
  "pool_ok h \<Longrightarrow> IOCallocAligned sz h = (a, h') \<Longrightarrow> peek h t j = Some x \<Longrightarrow> peek h' t j = Some x"
  by (auto simp: IOCallocAligned_def peek_def pool_ok_def split: list.splits if_splits option.splits)

lemma alloc_pool_ok:
  "pool_ok h \<Longrightarrow> IOCallocAligned sz h = (a, h') \<Longrightarrow> pool_ok h'"
  by (auto simp: IOCallocAligned_def pool_ok_def split: list.splits)

lemma next_level_entry:
  assumes "ept_next_level pa sz h tbl idx = Some (c, h')"
  shows "peek h' tbl (PAGE_OFFSET + idx) = Some c"
  using assms
  by (auto simp: ept_next_level_def PAGE_OFFSET_def peek_poke_same peek_poke_other
           split: bind_splits if_splits prod.splits)

lemma next_level_stable:
  assumes ok: "pool_ok h" and nl: "ept_next_level pa sz h tbl idx = Some (c, h')"
    and idx: "idx < 512" and j: "512 \<le> j" and pk: "peek h t j = Some x" and x: "x \<noteq> 0"
  shows "peek h' t j = Some x"
proof -
  from nl obtain child where child: "peek h tbl (PAGE_OFFSET + idx) = Some child"
    by (auto simp: ept_next_level_def split: bind_splits)
  show ?thesis
  proof (cases "child = 0")
    case False
    with nl child have "h' = h" by (simp add: ept_next_level_def)
    with pk show ?thesis by simp
  next
    case True
    with nl child obtain h1 h2 where
      al: "IOCallocAligned sz h = (c, h1)" and
      p1: "poke h1 tbl (PAGE_OFFSET + idx) c = Some h2" and
      p2: "poke h2 tbl idx (pa c OR EPT_DEFAULTS) = Some h'"
      by (auto simp: ept_next_level_def split: bind_splits prod.splits)
    have "peek h1 t j = Some x" using ok al pk by (rule peek_alloc)
    moreover have "t \<noteq> tbl \<or> j \<noteq> PAGE_OFFSET + idx"
      using child True pk x by auto
    ultimately have "peek h2 t j = Some x" using peek_poke_other [OF p1] by simp
    moreover have "t \<noteq> tbl \<or> j \<noteq> idx" using idx j by simp
    ultimately show ?thesis using peek_poke_other [OF p2] by simp
  qed
qed

lemma next_level_pool_ok:
  assumes "pool_ok h" "ept_next_level pa sz h tbl idx = Some (c, h')"
  shows "pool_ok h'"
  using assms
  by (auto simp: ept_next_level_def 
           split: bind_splits if_splits prod.splits dest: alloc_pool_ok poke_pool_ok)


lemma add_page_mapped:
  assumes ok: "pool_ok h" and ad: "ept_add_page pa h vcpu va hpa = Some h'"
  shows "ept_mapped h' vcpu va (hpa OR EPT_DEFAULTS OR EPT_CACHE_WRITEBACK)"
proof -
  from ad obtain pdpt h1 pd h2 pt h3 where
    n1: "ept_next_level pa (PAGE_SIZE * 2) h (pml4 vcpu) (pml4_idx va) = Some (pdpt, h1)" and
    n2: "ept_next_level pa (PAGE_SIZE * 2) h1 pdpt (pdpt_idx va) = Some (pd, h2)" and
    n3: "ept_next_level pa PAGE_SIZE h2 pd (pd_idx va) = Some (pt, h3)" and
    pk: "poke h3 pt (pt_idx va) (hpa OR EPT_DEFAULTS OR EPT_CACHE_WRITEBACK) = Some h'"
    by (auto simp: ept_add_page_def split: bind_splits)
  have ok1: "pool_ok h1" using ok n1 by (rule next_level_pool_ok)
  have ok2: "pool_ok h2" using ok1 n2 by (rule next_level_pool_ok)
  have pdpt0: "pdpt \<noteq> 0" using n2 by (auto simp: ept_next_level_def peek_def split: bind_splits)
  have pd0: "pd \<noteq> 0" using n3 by (auto simp: ept_next_level_def peek_def split: bind_splits)
  have pt0: "pt \<noteq> 0" using pk by (auto simp: poke_def split: if_splits)
  have e1: "peek h1 (pml4 vcpu) (PAGE_OFFSET + pml4_idx va) = Some pdpt"
    using n1 by (rule next_level_entry)
  have e2: "peek h2 pdpt (PAGE_OFFSET + pdpt_idx va) = Some pd"
    using n2 by (rule next_level_entry)
  have e3: "peek h3 pd (PAGE_OFFSET + pd_idx va) = Some pt"
    using n3 by (rule next_level_entry)
  have e1': "peek h2 (pml4 vcpu) (PAGE_OFFSET + pml4_idx va) = Some pdpt"
    using ok1 n2 pdpt_idx_lt _ e1 pdpt0 by (rule next_level_stable) (simp add: PAGE_OFFSET_def)
  have e1'': "peek h3 (pml4 vcpu) (PAGE_OFFSET + pml4_idx va) = Some pdpt"
    using ok2 n3 pd_idx_lt _ e1' pdpt0 by (rule next_level_stable) (simp add: PAGE_OFFSET_def)
  have e2': "peek h3 pdpt (PAGE_OFFSET + pdpt_idx va) = Some pd"
    using ok2 n3 pd_idx_lt _ e2 pd0 by (rule next_level_stable) (simp add: PAGE_OFFSET_def)
  have low: "\<And>q j. 512 \<le> j \<Longrightarrow> peek h' q j = peek h3 q j"
    using peek_poke_other [OF pk] pt_idx_lt [of va] by (metis not_le)
  have "peek h' pt (pt_idx va) = Some (hpa OR EPT_DEFAULTS OR EPT_CACHE_WRITEBACK)"
    using pk by (rule peek_poke_same)
  with e1'' e2' e3 low pdpt0 pd0 pt0 show ?thesis
    by (auto simp: ept_mapped_def PAGE_OFFSET_def)
qed

lemma leaf_mask: "(hpa OR EPT_DEFAULTS OR EPT_CACHE_WRITEBACK) AND NOT (word_of_nat (PAGE_SIZE - 1)) = hpa AND NOT (0xFFF :: ulong)"
  apply (simp add: EPT_DEFAULTS_def EPT_CACHE_WRITEBACK_def PAGE_SIZE_def VMX_EPT_EXECUTABLE_MASK_def VMX_EPT_WRITABLE_MASK_def VMX_EPT_READABLE_MASK_def)
  apply (simp add: bit.conj_disj_distrib2)
  done

lemma mapped_translate:
  "ept_mapped h vcpu va e \<Longrightarrow> ept_translate h vcpu va = Some (e AND NOT (word_of_nat (PAGE_SIZE - 1)))"
  by (auto simp: ept_mapped_def ept_translate_def)

lemma table_ok_blk:
  "ept_table_ok h n p \<Longrightarrow> p \<noteq> 0 \<and> (\<exists>b. mem h p = Some b \<and> length b = (if n = 0 then 512 else 1024))"
  by (cases n) (auto simp: PAGE_OFFSET_def split: option.splits)

lemma table_ok_child:
  assumes "ept_table_ok h (Suc n) p" "idx < 512" "peek h p (PAGE_OFFSET + idx) = Some c" "c \<noteq> 0"
  shows "ept_table_ok h n c"
proof -
  from assms(1) obtain b where b: "mem h p = Some b" "length b = 1024"
    and ch: "\<forall>c \<in> set (drop 512 b). c \<noteq> 0 \<longrightarrow> ept_table_ok h n c"
    by (auto simp: PAGE_OFFSET_def split: option.splits)
  from assms(3) b have "c = b ! (512 + idx)"
    by (auto simp: peek_def PAGE_OFFSET_def split: if_splits)
  also have "\<dots> = drop 512 b ! idx" using b assms(2) by simp
  also have "\<dots> \<in> set (drop 512 b)" using b assms(2) by (intro nth_mem) simp
  finally show ?thesis using ch assms(4) by blast
qed

lemma table_ok_fresh:
  assumes "a \<noteq> 0" "mem h a = Some (replicate k 0)" "k = (if n = 0 then 512 else 1024)"
  shows "ept_table_ok h n a"
  using assms by (cases n) (auto simp: PAGE_OFFSET_def)

lemma next_level_total:
  assumes ok: "pool_ok h" and tb: "ept_table_ok h (Suc n) tbl" and idx: "idx < 512"
    and pl: "pool h \<noteq> []" and sz: "sz div 8 = (if n = 0 then 512 else 1024)"
  shows "\<exists>c h'. ept_next_level pa sz h tbl idx = Some (c, h') \<and> ept_table_ok h' n c \<and>
           pool_ok h' \<and> length (pool h) \<le> Suc (length (pool h'))"
proof -
  from table_ok_blk [OF tb] obtain b where
    tbl0: "tbl \<noteq> 0" and b: "mem h tbl = Some b" and len: "length b = 1024" by auto
  then have pk: "peek h tbl (PAGE_OFFSET + idx) = Some (b ! (512 + idx))"
    using idx by (simp add: peek_def PAGE_OFFSET_def)
  show ?thesis
  proof (cases "b ! (512 + idx) = 0")
    case False
    then have "ept_next_level pa sz h tbl idx = Some (b ! (512 + idx), h)"
      using pk by (simp add: ept_next_level_def)
    moreover have "ept_table_ok h n (b ! (512 + idx))"
      using tb idx pk False by (rule table_ok_child)
    ultimately show ?thesis using ok by auto
  next
    case True
    from pl obtain a as where pool: "pool h = a # as" by (cases "pool h") auto
    with ok have a0: "a \<noteq> 0" and afresh: "mem h a = None" and atbl: "a \<noteq> tbl"
      using b by (auto simp: pool_ok_def)
    let ?h1 = "h\<lparr>mem := (mem h)(a \<mapsto> replicate (sz div 8) 0), pool := as\<rparr>"
    let ?h2 = "?h1\<lparr>mem := (mem ?h1)(tbl \<mapsto> b[512 + idx := a])\<rparr>"
    let ?h3 = "?h2\<lparr>mem := (mem ?h2)(tbl \<mapsto> b[512 + idx := a, idx := pa a OR EPT_DEFAULTS])\<rparr>"
    have al: "IOCallocAligned sz h = (a, ?h1)" using pool by (simp add: IOCallocAligned_def)
    have p1: "poke ?h1 tbl (PAGE_OFFSET + idx) a = Some ?h2"
      using tbl0 b len idx atbl by (simp add: poke_def PAGE_OFFSET_def)
    have p2: "poke ?h2 tbl idx (pa a OR EPT_DEFAULTS) = Some ?h3"
      using tbl0 b len idx atbl by (simp add: poke_def)
    have nl: "ept_next_level pa sz h tbl idx = Some (a, ?h3)"
      using pk True al p1 p2 by (simp add: ept_next_level_def)
    have "mem ?h3 a = Some (replicate (sz div 8) 0)" using atbl by simp
    then have "ept_table_ok ?h3 n a" using a0 sz by (intro table_ok_fresh [where k="sz div 8"]) auto
    moreover have "pool_ok ?h3" using ok pool atbl b by (auto simp: pool_ok_def)
    moreover have "length (pool h) \<le> Suc (length (pool ?h3))" using pool by simp
    ultimately show ?thesis using nl by blast
  qed
qed

lemma add_page_total:
  assumes wf: "ept_wf h vcpu" and ok: "pool_ok h" and pl: "3 \<le> length (pool h)"
  shows "\<exists>h'. ept_add_page pa h vcpu va hpa = Some h'"
proof -
  from pl have ne: "pool h \<noteq> []" by auto
  from next_level_total [OF ok wf [unfolded ept_wf_def eval_nat_numeral] pml4_idx_lt ne, of "PAGE_SIZE * 2" pa va]
  obtain pdpt h1 where
    n1: "ept_next_level pa (PAGE_SIZE * 2) h (pml4 vcpu) (pml4_idx va) = Some (pdpt, h1)" and
    t1: "ept_table_ok h1 (Suc (Suc 0)) pdpt" and ok1: "pool_ok h1" and
    l1: "length (pool h) \<le> Suc (length (pool h1))"
    by (auto simp: PAGE_SIZE_def)
  from pl l1 have ne1: "pool h1 \<noteq> []" by auto
  from next_level_total [OF ok1 t1 pdpt_idx_lt ne1, of "PAGE_SIZE * 2" pa va]
  obtain pd h2 where
    n2: "ept_next_level pa (PAGE_SIZE * 2) h1 pdpt (pdpt_idx va) = Some (pd, h2)" and
    t2: "ept_table_ok h2 (Suc 0) pd" and ok2: "pool_ok h2" and
    l2: "length (pool h1) \<le> Suc (length (pool h2))"
    by (auto simp: PAGE_SIZE_def)
  from pl l1 l2 have ne2: "pool h2 \<noteq> []" by auto
  from next_level_total [OF ok2 t2 pd_idx_lt ne2, of "PAGE_SIZE" pa va]
  obtain pt h3 where
    n3: "ept_next_level pa PAGE_SIZE h2 pd (pd_idx va) = Some (pt, h3)" and
    t3: "ept_table_ok h3 0 pt"
    by (auto simp: PAGE_SIZE_def)
  from table_ok_blk [OF t3] pt_idx_lt [of va]
  have "\<exists>h'. poke h3 pt (pt_idx va) (hpa OR EPT_DEFAULTS OR EPT_CACHE_WRITEBACK) = Some h'"
    by (auto simp: poke_def)
  with n1 n2 n3 show ?thesis by (auto simp: ept_add_page_def)
qed

lemma mapped_add_page:
  assumes "ept_mapped h vcpu va e"
  shows "\<exists>h'. ept_add_page pa h vcpu va hpa = Some h' \<and> pool h' = pool h \<and>
           ept_mapped h' vcpu va (hpa OR EPT_DEFAULTS OR EPT_CACHE_WRITEBACK)"
proof -
  from assms obtain pdpt pd pt where nz: "pdpt \<noteq> 0" "pd \<noteq> 0" "pt \<noteq> 0" and
    e1: "peek h (pml4 vcpu) (PAGE_OFFSET + pml4_idx va) = Some pdpt" and
    e2: "peek h pdpt (PAGE_OFFSET + pdpt_idx va) = Some pd" and
    e3: "peek h pd (PAGE_OFFSET + pd_idx va) = Some pt" and
    e4: "peek h pt (pt_idx va) = Some e"
    by (auto simp: ept_mapped_def)
  from e4 obtain h' where
    pk: "poke h pt (pt_idx va) (hpa OR EPT_DEFAULTS OR EPT_CACHE_WRITEBACK) = Some h'"
    by (auto simp: peek_def poke_def split: if_splits option.splits)
  have ad: "ept_add_page pa h vcpu va hpa = Some h'"
    using nz e1 e2 e3 pk by (simp add: ept_add_page_def ept_next_level_def)
  have low: "\<And>q j. 512 \<le> j \<Longrightarrow> peek h' q j = peek h q j"
    using peek_poke_other [OF pk] pt_idx_lt [of va] by (metis not_le)
  have "peek h' pt (pt_idx va) = Some (hpa OR EPT_DEFAULTS OR EPT_CACHE_WRITEBACK)"
    using pk by (rule peek_poke_same)
  with e1 e2 e3 low nz have "ept_mapped h' vcpu va (hpa OR EPT_DEFAULTS OR EPT_CACHE_WRITEBACK)"
    by (auto simp: ept_mapped_def PAGE_OFFSET_def)
  moreover have "pool h' = pool h" using pk by (auto simp: poke_def split: if_splits option.splits)
  ultimately show ?thesis using ad by blast
qed

lemma translate_total:
  assumes "ept_wf h vcpu"
  shows "\<exists>x. ept_translate h vcpu va = Some x"
proof -
  have t3: "ept_table_ok h (Suc (Suc (Suc 0))) (pml4 vcpu)"
    using assms by (simp add: ept_wf_def numeral_3_eq_3)
  have pk: "\<And>n p i. ept_table_ok h n p \<Longrightarrow> i < 512 \<Longrightarrow> \<exists>c. peek h p i = Some c"
    by (drule table_ok_blk) (auto simp: peek_def)
  have pk2: "\<And>n p i. ept_table_ok h (Suc n) p \<Longrightarrow> i < 512 \<Longrightarrow> \<exists>c. peek h p (PAGE_OFFSET + i) = Some c"
    by (drule table_ok_blk) (auto simp: peek_def PAGE_OFFSET_def)
  from pk2 [OF t3 pml4_idx_lt] obtain pdpt where
    e1: "peek h (pml4 vcpu) (PAGE_OFFSET + pml4_idx va) = Some pdpt" by blast
  show ?thesis
  proof (cases "pdpt = 0")
    case True with e1 show ?thesis by (simp add: ept_translate_def)
  next
    case n1: False
    have t2: "ept_table_ok h (Suc (Suc 0)) pdpt" using t3 pml4_idx_lt e1 n1 by (rule table_ok_child)
    from pk2 [OF t2 pdpt_idx_lt] obtain pd where
      e2: "peek h pdpt (PAGE_OFFSET + pdpt_idx va) = Some pd" by blast
    show ?thesis
    proof (cases "pd = 0")
      case True with e1 e2 n1 show ?thesis by (simp add: ept_translate_def)
    next
      case n2: False
      have t1: "ept_table_ok h (Suc 0) pd" using t2 pdpt_idx_lt e2 n2 by (rule table_ok_child)
      from pk2 [OF t1 pd_idx_lt] obtain pt where
        e3: "peek h pd (PAGE_OFFSET + pd_idx va) = Some pt" by blast
      show ?thesis
      proof (cases "pt = 0")
        case True with e1 e2 e3 n1 n2 show ?thesis by (simp add: ept_translate_def)
      next
        case n3: False
        have t0: "ept_table_ok h 0 pt" using t1 pd_idx_lt e3 n3 by (rule table_ok_child)
        from pk [OF t0 pt_idx_lt] obtain e where "peek h pt (pt_idx va) = Some e" by blast
        with e1 e2 e3 n1 n2 n3 show ?thesis by (simp add: ept_translate_def)
      qed
    qed
  qed
qed

lemma mapped_leaf_translate:
  assumes "ept_mapped h vcpu va (hpa OR EPT_DEFAULTS OR EPT_CACHE_WRITEBACK)"
  shows "ept_translate h vcpu va = Some (hpa AND NOT 0xFFF)"
  using mapped_translate [OF assms] by (simp only: leaf_mask)

text \<open>
  C1. After \<open>ept_add_page\<close> for a guest physical address \<open>A\<close> and a host
  physical address \<open>H\<close>, \<open>ept_translate\<close> of \<open>A\<close> is \<open>H\<close> with its low 12 bits
  cleared, whichever of the intermediate tables existed before the call: the call
  succeeds on a well-formed tree when the allocator can supply three nodes, and
  whenever it succeeds the translation is the masked \<open>H\<close>.
\<close>

theorem ept_add_page_then_translate:
  assumes "pool_ok h"
  shows "(ept_wf h vcpu \<and> 3 \<le> length (pool h) \<longrightarrow>
            (\<exists>h'. ept_add_page pa h vcpu A H = Some h')) \<and>
         (\<forall>h'. ept_add_page pa h vcpu A H = Some h' \<longrightarrow>
            ept_translate h' vcpu A = Some (H AND NOT 0xFFF))"
proof (intro conjI impI allI)
  assume "ept_wf h vcpu \<and> 3 \<le> length (pool h)"
  with assms show "\<exists>h'. ept_add_page pa h vcpu A H = Some h'"
    by (auto intro: add_page_total)
next
  fix h' assume "ept_add_page pa h vcpu A H = Some h'"
  with assms have "ept_mapped h' vcpu A (H OR EPT_DEFAULTS OR EPT_CACHE_WRITEBACK)"
    by (rule add_page_mapped)
  then show "ept_translate h' vcpu A = Some (H AND NOT 0xFFF)"
    by (simp only: mapped_leaf_translate simp_thms)
qed

theorem ept_add_page_then_translate_witness:
  "pool_ok \<lparr>mem = [0x1000 \<mapsto> replicate 1024 0], pool = [0x3000, 0x5000, 0x7000]\<rparr> \<and>
   ept_wf \<lparr>mem = [0x1000 \<mapsto> replicate 1024 0], pool = [0x3000, 0x5000, 0x7000]\<rparr>
     (vcpu_zero\<lparr>pml4 := 0x1000\<rparr>) \<and>
   (\<exists>h'. ept_add_page id \<lparr>mem = [0x1000 \<mapsto> replicate 1024 0], pool = [0x3000, 0x5000, 0x7000]\<rparr>
            (vcpu_zero\<lparr>pml4 := 0x1000\<rparr>) 0x2000 0xABCDE123 = Some h' \<and>
          ept_translate h' (vcpu_zero\<lparr>pml4 := 0x1000\<rparr>) 0x2000 = Some 0xABCDE000)"
proof -
  let ?h = "\<lparr>mem = [0x1000 \<mapsto> replicate 1024 (0::ulong)], pool = [0x3000, 0x5000, 0x7000 :: ulong]\<rparr>"
  let ?v = "vcpu_zero\<lparr>pml4 := 0x1000\<rparr>"
  have ok: "pool_ok ?h" by (simp add: pool_ok_def)
  have wf: "ept_wf ?h ?v" by (simp add: ept_wf_def numeral_3_eq_3 PAGE_OFFSET_def)
  have len: "3 \<le> length (pool ?h)" by simp
  from ept_add_page_then_translate [OF ok, of ?v id "0x2000" "0xABCDE123"] wf len
  show ?thesis using ok by auto
qed

text \<open>
  C2. When the walk for an address reaches an unallocated pdpt, pd or pt,
  \<open>ept_translate\<close> returns 0, the absent result, and does so without a memory
  fault: it dereferences no \<open>NULL\<close> pointer on the way.
\<close>

theorem ept_translate_absent:
  assumes "ept_walk_unallocated h vcpu A"
  shows "ept_translate h vcpu A = Some 0"
  using assms by (auto simp: ept_walk_unallocated_def ept_translate_def)

theorem ept_translate_absent_witness:
  "ept_walk_unallocated \<lparr>mem = [0x1000 \<mapsto> replicate 1024 0], pool = []\<rparr>
     (vcpu_zero\<lparr>pml4 := 0x1000\<rparr>) 0x4000 \<and>
   ept_translate \<lparr>mem = [0x1000 \<mapsto> replicate 1024 0], pool = []\<rparr>
     (vcpu_zero\<lparr>pml4 := 0x1000\<rparr>) 0x4000 = Some 0"
proof -
  let ?h = "\<lparr>mem = [0x1000 \<mapsto> replicate 1024 (0::ulong)], pool = ([] :: ulong list)\<rparr>"
  let ?v = "vcpu_zero\<lparr>pml4 := 0x1000\<rparr>"
  have un: "ept_walk_unallocated ?h ?v 0x4000"
    by (simp add: ept_walk_unallocated_def peek_def PAGE_OFFSET_def pml4_idx_def)
  from ept_translate_absent [OF un] un show ?thesis by simp
qed

text \<open>
  C3. Last write wins: after \<open>ept_add_page\<close> of \<open>A\<close> to \<open>H1\<close>, a second
  \<open>ept_add_page\<close> of \<open>A\<close> to \<open>H2\<close> always succeeds, allocates nothing, and
  \<open>ept_translate\<close> of \<open>A\<close> then yields the page of \<open>H2\<close>, for any \<open>H1\<close> and \<open>H2\<close>.
\<close>

theorem ept_add_page_last_write_wins:
  assumes "pool_ok h"
  shows "(ept_wf h vcpu \<and> 3 \<le> length (pool h) \<longrightarrow>
            (\<exists>h1. ept_add_page pa h vcpu A H1 = Some h1)) \<and>
         (\<forall>h1. ept_add_page pa h vcpu A H1 = Some h1 \<longrightarrow>
            (\<exists>h2. ept_add_page pa h1 vcpu A H2 = Some h2 \<and> pool h2 = pool h1 \<and>
                   ept_translate h2 vcpu A = Some (H2 AND NOT 0xFFF)))"
proof (intro conjI impI allI)
  assume "ept_wf h vcpu \<and> 3 \<le> length (pool h)"
  with assms show "\<exists>h1. ept_add_page pa h vcpu A H1 = Some h1"
    by (auto intro: add_page_total)
next
  fix h1 assume "ept_add_page pa h vcpu A H1 = Some h1"
  with assms have "ept_mapped h1 vcpu A (H1 OR EPT_DEFAULTS OR EPT_CACHE_WRITEBACK)"
    by (rule add_page_mapped)
  from mapped_add_page [OF this, of pa H2] obtain h2 where
    "ept_add_page pa h1 vcpu A H2 = Some h2" "pool h2 = pool h1"
    "ept_mapped h2 vcpu A (H2 OR EPT_DEFAULTS OR EPT_CACHE_WRITEBACK)" by blast
  then show "\<exists>h2. ept_add_page pa h1 vcpu A H2 = Some h2 \<and> pool h2 = pool h1 \<and>
                   ept_translate h2 vcpu A = Some (H2 AND NOT 0xFFF)"
    by (blast intro: mapped_leaf_translate)
qed

theorem ept_add_page_last_write_wins_witness:
  "pool_ok \<lparr>mem = [0x1000 \<mapsto> replicate 1024 0], pool = [0x3000, 0x5000, 0x7000]\<rparr> \<and>
   ept_wf \<lparr>mem = [0x1000 \<mapsto> replicate 1024 0], pool = [0x3000, 0x5000, 0x7000]\<rparr>
     (vcpu_zero\<lparr>pml4 := 0x1000\<rparr>) \<and>
   (\<exists>h1 h2. ept_add_page id \<lparr>mem = [0x1000 \<mapsto> replicate 1024 0], pool = [0x3000, 0x5000, 0x7000]\<rparr>
            (vcpu_zero\<lparr>pml4 := 0x1000\<rparr>) 0x2000 0xABCDE123 = Some h1 \<and>
          ept_add_page id h1 (vcpu_zero\<lparr>pml4 := 0x1000\<rparr>) 0x2000 0x55555000 = Some h2 \<and>
          ept_translate h2 (vcpu_zero\<lparr>pml4 := 0x1000\<rparr>) 0x2000 = Some 0x55555000)"
proof -
  let ?h = "\<lparr>mem = [0x1000 \<mapsto> replicate 1024 (0::ulong)], pool = [0x3000, 0x5000, 0x7000 :: ulong]\<rparr>"
  let ?v = "vcpu_zero\<lparr>pml4 := 0x1000\<rparr>"
  have ok: "pool_ok ?h" by (simp add: pool_ok_def)
  have wf: "ept_wf ?h ?v" by (simp add: ept_wf_def numeral_3_eq_3 PAGE_OFFSET_def)
  have len: "3 \<le> length (pool ?h)" by simp
  from ept_add_page_last_write_wins [OF ok, of ?v id "0x2000" "0xABCDE123" "0x55555000"] wf len
  obtain h1 where h1: "ept_add_page id ?h ?v 0x2000 0xABCDE123 = Some h1" by blast
  with ept_add_page_last_write_wins [OF ok, of ?v id "0x2000" "0xABCDE123" "0x55555000"]
  obtain h2 where "ept_add_page id h1 ?v 0x2000 0x55555000 = Some h2"
    "ept_translate h2 ?v 0x2000 = Some (0x55555000 AND NOT 0xFFF)" by blast
  with h1 ok wf show ?thesis by auto
qed

text \<open>
  The hypotheses of C1 and C3 hold in every state that the code can build: the tree
  is well formed and the allocator's future results are fresh.
\<close>

lemma levels_table_ok:
  "ept_levels_ok lv h \<Longrightarrow> mem h p \<noteq> None \<Longrightarrow> lv p = n \<Longrightarrow> ept_table_ok h n p"
proof (induction n arbitrary: p)
  case 0
  then show ?case by (auto simp: ept_levels_ok_def)
next
  case (Suc n)
  from Suc.prems obtain b where b: "mem h p = Some b" by auto
  with Suc.prems have p0: "p \<noteq> 0" and len: "length b = 2 * PAGE_OFFSET" and
    ch: "\<forall>c \<in> set (drop PAGE_OFFSET b). c \<noteq> 0 \<longrightarrow> mem h c \<noteq> None \<and> Suc (lv c) = Suc n"
    by (auto simp: ept_levels_ok_def)
  have "\<forall>c \<in> set (drop PAGE_OFFSET b). c \<noteq> 0 \<longrightarrow> ept_table_ok h n c"
    using ch Suc.IH [OF Suc.prems(1)] by auto
  with b p0 len show ?case by simp
qed

lemma next_level_levels:
  assumes lv: "ept_levels_ok lv h" and ok: "pool_ok h" and live: "mem h tbl \<noteq> None"
    and lt: "lv tbl = Suc n" and idx: "idx < 512"
    and sz: "sz div 8 = (if n = 0 then 512 else 1024)"
    and nl: "ept_next_level pa sz h tbl idx = Some (c, h')" and c0: "c \<noteq> 0"
  shows "\<exists>lv'. ept_levels_ok lv' h' \<and> lv' c = n \<and> mem h' c \<noteq> None \<and>
           (\<forall>p. mem h p \<noteq> None \<longrightarrow> lv' p = lv p \<and> mem h' p \<noteq> None)"
proof -
  from live obtain b where b: "mem h tbl = Some b" by auto
  with lv lt have tbl0: "tbl \<noteq> 0" and len: "length b = 1024" and
    ch: "\<forall>c \<in> set (drop 512 b). c \<noteq> 0 \<longrightarrow> mem h c \<noteq> None \<and> Suc (lv c) = Suc n"
    by (auto simp: ept_levels_ok_def PAGE_OFFSET_def)
  have pk: "peek h tbl (PAGE_OFFSET + idx) = Some (b ! (512 + idx))"
    using tbl0 b len idx by (simp add: peek_def PAGE_OFFSET_def)
  show ?thesis
  proof (cases "b ! (512 + idx) = 0")
    case False
    with nl pk have eq: "c = b ! (512 + idx)" "h' = h" by (auto simp: ept_next_level_def)
    have "b ! (512 + idx) = drop 512 b ! idx" using len idx by simp
    also have "\<dots> \<in> set (drop 512 b)" using len idx by (intro nth_mem) simp
    finally have "c \<in> set (drop 512 b)" using eq by simp
    with ch c0 have "mem h c \<noteq> None" "lv c = n" by auto
    with eq lv show ?thesis by (intro exI [of _ lv]) auto
  next
    case True
    have "pool h \<noteq> []"
    proof
      assume "pool h = []"
      with nl pk True have "c = 0"
        by (auto simp: ept_next_level_def IOCallocAligned_def split: bind_splits)
      with c0 show False by simp
    qed
    then obtain a as where pool: "pool h = a # as" by (cases "pool h") auto
    with ok have a0: "a \<noteq> 0" and afresh: "mem h a = None" and atbl: "a \<noteq> tbl"
      using b by (auto simp: pool_ok_def)
    let ?b' = "b[512 + idx := a, idx := pa a OR EPT_DEFAULTS]"
    let ?h1 = "h\<lparr>mem := (mem h)(a \<mapsto> replicate (sz div 8) 0), pool := as\<rparr>"
    let ?h2 = "?h1\<lparr>mem := (mem ?h1)(tbl \<mapsto> b[512 + idx := a])\<rparr>"
    let ?h3 = "?h2\<lparr>mem := (mem ?h2)(tbl \<mapsto> ?b')\<rparr>"
    have al: "IOCallocAligned sz h = (a, ?h1)" using pool by (simp add: IOCallocAligned_def)
    have p1: "poke ?h1 tbl (PAGE_OFFSET + idx) a = Some ?h2"
      using tbl0 b len idx atbl by (simp add: poke_def PAGE_OFFSET_def)
    have p2: "poke ?h2 tbl idx (pa a OR EPT_DEFAULTS) = Some ?h3"
      using tbl0 b len idx atbl by (simp add: poke_def)
    have "ept_next_level pa sz h tbl idx = Some (a, ?h3)"
      using pk True al p1 p2 by (simp add: ept_next_level_def)
    with nl have "Some (c, h') = Some (a, ?h3)" by (simp only:)
    then have res: "c = a" "h' = ?h3" by blast+
    have m3: "mem ?h3 = (mem h)(a \<mapsto> replicate (sz div 8) 0, tbl \<mapsto> ?b')"
      by (simp add: fun_eq_iff)
    have sub: "set (drop 512 ?b') \<subseteq> insert a (set (drop 512 b))"
      using idx by (simp add: drop_update_cancel drop_update_swap set_update_subset_insert)
    let ?lv = "lv(a := n)"
    have "ept_levels_ok ?lv ?h3"
      unfolding ept_levels_ok_def m3
    proof (intro allI impI)
      fix p bp assume pb: "((mem h)(a \<mapsto> replicate (sz div 8) 0, tbl \<mapsto> ?b')) p = Some bp"
      consider "p = tbl" | "p = a" "p \<noteq> tbl" | "p \<noteq> a" "p \<noteq> tbl" by blast
      then show "p \<noteq> 0 \<and>
        (if ?lv p = 0 then length bp = PAGE_OFFSET
         else length bp = 2 * PAGE_OFFSET \<and>
              (\<forall>c \<in> set (drop PAGE_OFFSET bp). c \<noteq> 0 \<longrightarrow>
                 ((mem h)(a \<mapsto> replicate (sz div 8) 0, tbl \<mapsto> ?b')) c \<noteq> None \<and>
                 Suc (?lv c) = ?lv p))"
      proof cases
        case 1
        with pb have bp: "bp = ?b'" by simp
        have "\<forall>c \<in> set (drop 512 ?b'). c \<noteq> 0 \<longrightarrow>
                ((mem h)(a \<mapsto> replicate (sz div 8) 0, tbl \<mapsto> ?b')) c \<noteq> None \<and>
                Suc (?lv c) = Suc n"
        proof (intro ballI impI)
          fix c assume "c \<in> set (drop 512 ?b')" "c \<noteq> 0"
          with sub have "c = a \<or> (c \<in> set (drop 512 b) \<and> c \<noteq> a)" by auto
          then show "((mem h)(a \<mapsto> replicate (sz div 8) 0, tbl \<mapsto> ?b')) c \<noteq> None \<and>
                Suc (?lv c) = Suc n"
            using ch \<open>c \<noteq> 0\<close> by auto
        qed
        with 1 bp tbl0 len lt atbl show ?thesis by (simp add: PAGE_OFFSET_def)
      next
        case 2
        with pb have "bp = replicate (sz div 8) 0" by simp
        with 2 a0 sz show ?thesis by (auto simp: PAGE_OFFSET_def)
      next
        case 3
        with pb have hp: "mem h p = Some bp" by simp
        with lv have p0: "p \<noteq> 0" and
          r: "if lv p = 0 then length bp = PAGE_OFFSET
              else length bp = 2 * PAGE_OFFSET \<and>
                (\<forall>c \<in> set (drop PAGE_OFFSET bp). c \<noteq> 0 \<longrightarrow> mem h c \<noteq> None \<and> Suc (lv c) = lv p)"
          unfolding ept_levels_ok_def by blast+
        show ?thesis
        proof (cases "lv p = 0")
          case True
          with 3 p0 r show ?thesis by simp
        next
          case False
          with r have len': "length bp = 2 * PAGE_OFFSET" and
            ch': "\<forall>c \<in> set (drop PAGE_OFFSET bp). c \<noteq> 0 \<longrightarrow>
                    mem h c \<noteq> None \<and> Suc (lv c) = lv p" by auto
          have "\<forall>c \<in> set (drop PAGE_OFFSET bp). c \<noteq> 0 \<longrightarrow>
                 ((mem h)(a \<mapsto> replicate (sz div 8) 0, tbl \<mapsto> ?b')) c \<noteq> None \<and>
                 Suc (?lv c) = ?lv p"
          proof (intro ballI impI)
            fix c assume "c \<in> set (drop PAGE_OFFSET bp)" "c \<noteq> 0"
            with ch' have l: "mem h c \<noteq> None" and s: "Suc (lv c) = lv p" by auto
            from l afresh have "c \<noteq> a" by auto
            with l s 3 show "((mem h)(a \<mapsto> replicate (sz div 8) 0, tbl \<mapsto> ?b')) c \<noteq> None \<and>
                 Suc (?lv c) = ?lv p" by auto
          qed
          with False 3 p0 len' show ?thesis by simp
        qed
      qed
    qed
    moreover have "?lv a = n" by simp
    moreover have "mem ?h3 a \<noteq> None" using atbl by simp
    moreover have "\<forall>p. mem h p \<noteq> None \<longrightarrow> ?lv p = lv p \<and> mem ?h3 p \<noteq> None"
      using afresh by auto
    ultimately show ?thesis unfolding res by (intro exI [of _ ?lv]) blast
  qed
qed


lemma poke_leaf_levels:
  assumes lv: "ept_levels_ok lv h" and l0: "lv pt = 0" and pk: "poke h pt i v = Some h'"
  shows "ept_levels_ok lv h' \<and> (\<forall>p. mem h p \<noteq> None \<longrightarrow> mem h' p \<noteq> None)"
proof -
  from pk obtain b where b: "mem h pt = Some b" and
    h': "h' = h\<lparr>mem := (mem h)(pt \<mapsto> b[i := v])\<rparr>"
    by (auto simp: poke_def split: if_splits option.splits)
  have "ept_levels_ok lv h'"
    unfolding ept_levels_ok_def
  proof (intro allI impI)
    fix p bp assume pb: "mem h' p = Some bp"
    show "p \<noteq> 0 \<and>
        (if lv p = 0 then length bp = PAGE_OFFSET
         else length bp = 2 * PAGE_OFFSET \<and>
              (\<forall>c \<in> set (drop PAGE_OFFSET bp). c \<noteq> 0 \<longrightarrow>
                 mem h' c \<noteq> None \<and> Suc (lv c) = lv p))"
    proof (cases "p = pt")
      case True
      with pb h' have "bp = b[i := v]" by simp
      with True l0 lv b show ?thesis by (auto simp: ept_levels_ok_def)
    next
      case False
      with pb h' have "mem h p = Some bp" by simp
      with lv have "p \<noteq> 0 \<and>
        (if lv p = 0 then length bp = PAGE_OFFSET
         else length bp = 2 * PAGE_OFFSET \<and>
              (\<forall>c \<in> set (drop PAGE_OFFSET bp). c \<noteq> 0 \<longrightarrow>
                 mem h c \<noteq> None \<and> Suc (lv c) = lv p))"
        unfolding ept_levels_ok_def by blast
      then show ?thesis using h' by (auto split: if_splits)
    qed
  qed
  then show ?thesis using h' by auto
qed

lemma next_level_nonnull:
  "ept_next_level pa sz h tbl idx = Some (c, h') \<Longrightarrow> tbl \<noteq> 0"
  by (auto simp: ept_next_level_def peek_def split: bind_splits if_splits)

lemma add_page_levels:
  assumes lv: "ept_levels_ok lv h" and ok: "pool_ok h" and live: "mem h (pml4 vcpu) \<noteq> None"
    and l3: "lv (pml4 vcpu) = 3" and ad: "ept_add_page pa h vcpu va hpa = Some h'"
  shows "\<exists>lv'. ept_levels_ok lv' h' \<and> mem h' (pml4 vcpu) \<noteq> None \<and> lv' (pml4 vcpu) = 3"
proof -
  from ad obtain pdpt h1 pd h2 pt h3 where
    n1: "ept_next_level pa (PAGE_SIZE * 2) h (pml4 vcpu) (pml4_idx va) = Some (pdpt, h1)" and
    n2: "ept_next_level pa (PAGE_SIZE * 2) h1 pdpt (pdpt_idx va) = Some (pd, h2)" and
    n3: "ept_next_level pa PAGE_SIZE h2 pd (pd_idx va) = Some (pt, h3)" and
    pk: "poke h3 pt (pt_idx va) (hpa OR EPT_DEFAULTS OR EPT_CACHE_WRITEBACK) = Some h'"
    by (auto simp: ept_add_page_def split: bind_splits)
  have ok1: "pool_ok h1" using ok n1 by (rule next_level_pool_ok)
  have ok2: "pool_ok h2" using ok1 n2 by (rule next_level_pool_ok)
  have pdpt0: "pdpt \<noteq> 0" using n2 by (rule next_level_nonnull)
  have pd0: "pd \<noteq> 0" using n3 by (rule next_level_nonnull)
  have l3': "lv (pml4 vcpu) = Suc 2" using l3 by simp
  from next_level_levels [OF lv ok live l3' pml4_idx_lt _ n1 pdpt0]
  obtain lv1 where lv1: "ept_levels_ok lv1 h1" and a1: "lv1 pdpt = 2" "mem h1 pdpt \<noteq> None"
    and k1: "\<forall>p. mem h p \<noteq> None \<longrightarrow> lv1 p = lv p \<and> mem h1 p \<noteq> None"
    by (auto simp: PAGE_SIZE_def)
  have a1': "lv1 pdpt = Suc 1" using a1 by simp
  from next_level_levels [OF lv1 ok1 a1(2) a1' pdpt_idx_lt _ n2 pd0]
  obtain lv2 where lv2: "ept_levels_ok lv2 h2" and a2: "lv2 pd = 1" "mem h2 pd \<noteq> None"
    and k2: "\<forall>p. mem h1 p \<noteq> None \<longrightarrow> lv2 p = lv1 p \<and> mem h2 p \<noteq> None"
    by (auto simp: PAGE_SIZE_def)
  have a2': "lv2 pd = Suc 0" using a2 by simp
  have pt0: "pt \<noteq> 0" using pk by (auto simp: poke_def split: if_splits)
  from next_level_levels [OF lv2 ok2 a2(2) a2' pd_idx_lt _ n3 pt0]
  obtain lv3 where lv3: "ept_levels_ok lv3 h3" and a3: "lv3 pt = 0" "mem h3 pt \<noteq> None"
    and k3: "\<forall>p. mem h2 p \<noteq> None \<longrightarrow> lv3 p = lv2 p \<and> mem h3 p \<noteq> None"
    by (auto simp: PAGE_SIZE_def)
  from poke_leaf_levels [OF lv3 a3(1) pk]
  have lv4: "ept_levels_ok lv3 h'" and k4: "\<forall>p. mem h3 p \<noteq> None \<longrightarrow> mem h' p \<noteq> None"
    by auto
  have "mem h' (pml4 vcpu) \<noteq> None" using live k1 k2 k3 k4 by blast
  moreover have "lv3 (pml4 vcpu) = 3" using live l3 k1 k2 k3 by metis
  ultimately show ?thesis using lv4 by blast
qed

lemma ept_init_levels:
  assumes "pool_ok h0" "mem h0 = Map.empty" "pool h0 \<noteq> []" "ept_init h0 v0 = (h, v)"
  shows "ept_levels_ok (\<lambda>_. 3) h \<and> mem h (pml4 v) \<noteq> None \<and> pool_ok h"
proof -
  from assms(3) obtain a as where "pool h0 = a # as" by (cases "pool h0") auto
  with assms show ?thesis
    by (auto simp: ept_init_def IOCallocAligned_def ept_levels_ok_def pool_ok_def
          PAGE_SIZE_def PAGE_OFFSET_def split: if_splits)
qed

lemma add_page_pool_ok:
  assumes "pool_ok h" "ept_add_page pa h vcpu va hpa = Some h'"
  shows "pool_ok h'"
  using assms
  by (auto simp: ept_add_page_def split: bind_splits
        dest!: next_level_pool_ok [rotated] poke_pool_ok)

lemma reachable_levels:
  assumes "ept_reachable pa h v"
  shows "pool_ok h \<and> (\<exists>lv. ept_levels_ok lv h \<and> mem h (pml4 v) \<noteq> None \<and> lv (pml4 v) = 3)"
  using assms
proof (induction rule: ept_reachable.induct)
  case (init h0 v0 h v)
  from ept_init_levels [OF this] show ?case by (intro conjI exI [of _ "\<lambda>_. 3"]) auto
next
  case (add h v va hpa h')
  then obtain lv where "pool_ok h" "ept_levels_ok lv h" "mem h (pml4 v) \<noteq> None" "lv (pml4 v) = 3"
    by blast
  with add.hyps(2) show ?case using add_page_levels add_page_pool_ok by blast
next
  case (other h v v')
  then show ?case by simp
qed

lemma reachable_wf:
  assumes "ept_reachable pa h v"
  shows "ept_wf h v \<and> pool_ok h"
proof -
  from reachable_levels [OF assms] obtain lv where
    "pool_ok h" "ept_levels_ok lv h" "mem h (pml4 v) \<noteq> None" "lv (pml4 v) = 3" by blast
  then show ?thesis using levels_table_ok [of lv h "pml4 v" 3] by (simp add: ept_wf_def)
qed

section \<open>Properties of the interrupt lines\<close>

text \<open>
  C7. Asserting a line below \<open>IRQ_MAX\<close> a second time (level 1, no deassert in
  between) changes nothing: the state after two assertions is the state after one.
  The pending bit is set by the first assertion exactly when the stored level was 0,
  and the stored level is 1 afterwards.
\<close>

theorem kvm_irq_line_assert_twice:
  assumes "unat (irq l) < IRQ_MAX" and "level l = 1"
  shows "kvm_irq_line (snd (kvm_irq_line v l)) l = kvm_irq_line v l \<and>
         pending_irq (snd (kvm_irq_line v l)) =
           (if irq_level v (unat (irq l)) = 0
            then pending_irq v OR push_bit (unat (irq l)) 1 else pending_irq v) \<and>
         irq_level (snd (kvm_irq_line v l)) = (irq_level v)(unat (irq l) := 1)"
  using assms by (simp add: kvm_irq_line_def Let_def IRQ_MAX_def word_less_nat_alt)

theorem kvm_irq_line_assert_twice_witness:
  "unat (irq \<lparr>irq = 3, level = 1\<rparr>) < IRQ_MAX \<and> level \<lparr>irq = 3, level = 1\<rparr> = 1 \<and>
   kvm_irq_line (snd (kvm_irq_line vcpu_zero \<lparr>irq = 3, level = 1\<rparr>)) \<lparr>irq = 3, level = 1\<rparr>
     = kvm_irq_line vcpu_zero \<lparr>irq = 3, level = 1\<rparr> \<and>
   pending_irq (snd (kvm_irq_line vcpu_zero \<lparr>irq = 3, level = 1\<rparr>)) = 8"
proof -
  have a: "unat (irq \<lparr>irq = 3, level = 1\<rparr>) < IRQ_MAX" by (simp add: IRQ_MAX_def)
  have b: "level \<lparr>irq = 3, level = 1\<rparr> = 1" by simp
  from kvm_irq_line_assert_twice [OF a b, of vcpu_zero] a b
  show ?thesis by (simp add: vcpu_zero_def)
qed

text \<open>
  C10. A request for a line at or above \<open>IRQ_MAX\<close> leaves the whole vcpu, so the
  pending bitmap and the level array, as it was, and returns 0.
\<close>

theorem kvm_irq_line_out_of_range:
  assumes "IRQ_MAX \<le> unat (irq l)"
  shows "kvm_irq_line v l = (0, v)"
  using assms by (simp add: kvm_irq_line_def Let_def IRQ_MAX_def word_less_nat_alt)

theorem kvm_irq_line_out_of_range_witness:
  "IRQ_MAX \<le> unat (irq \<lparr>irq = 16, level = 1\<rparr>) \<and>
   kvm_irq_line vcpu_zero \<lparr>irq = 16, level = 1\<rparr> = (0, vcpu_zero)"
proof -
  have a: "IRQ_MAX \<le> unat (irq \<lparr>irq = 16, level = 1\<rparr>)" by (simp add: IRQ_MAX_def)
  from kvm_irq_line_out_of_range [OF a, of vcpu_zero] a show ?thesis by simp
qed

section \<open>Properties of the handlers\<close>

lemma skip_regs:
  "regs (skip_emulated_instruction v) =
     (regs v)(VCPU_REGS_RIP := regs v VCPU_REGS_RIP + scast (exit_instruction_len v))"
  by (simp add: skip_emulated_instruction_def)

text \<open>
  C6. For CPUID function 1 the values written to \<open>rdx\<close> and \<open>rcx\<close> have bits 25 and
  26 of \<open>edx\<close> and bits 0, 9, 19, 20, 26 and 27 of \<open>ecx\<close> clear, for every override
  table and every answer of the real instruction.
\<close>

theorem handle_cpuid_function_1_masked:
  assumes "ucast (regs v VCPU_REGS_RAX) = (1 :: u32)"
  shows "\<not> bit (regs (snd (handle_cpuid pf v)) VCPU_REGS_RDX) 25 \<and>
         \<not> bit (regs (snd (handle_cpuid pf v)) VCPU_REGS_RDX) 26 \<and>
         \<not> bit (regs (snd (handle_cpuid pf v)) VCPU_REGS_RCX) 0 \<and>
         \<not> bit (regs (snd (handle_cpuid pf v)) VCPU_REGS_RCX) 9 \<and>
         \<not> bit (regs (snd (handle_cpuid pf v)) VCPU_REGS_RCX) 19 \<and>
         \<not> bit (regs (snd (handle_cpuid pf v)) VCPU_REGS_RCX) 20 \<and>
         \<not> bit (regs (snd (handle_cpuid pf v)) VCPU_REGS_RCX) 26 \<and>
         \<not> bit (regs (snd (handle_cpuid pf v)) VCPU_REGS_RCX) 27 \<and>
         fst (handle_cpuid pf v) = 1"
  using assms
  by (simp add: handle_cpuid_def Let_def skip_regs VCPU_REGS_defs bit_simps
           split: prod.splits option.splits)

theorem handle_cpuid_function_1_masked_witness:
  "ucast (regs (vcpu_zero\<lparr>regs := (\<lambda>_. 0)(VCPU_REGS_RAX := 1),
      cpuids := [\<lparr>func = 1, index = 0, flags = 0, eax = 0, ebx = 0,
                  ecx = 0xFFFFFFFF, edx = 0xFFFFFFFF\<rparr>]\<rparr>) VCPU_REGS_RAX) = (1 :: u32) \<and>
   handle_cpuid
     \<lparr>vmx_enter = (\<lambda>(w::unit) r c vm. (w, r, c, vm)),
      cpuid = (\<lambda>a c. (0, 0, 0xFFFFFFFF, 0xFFFFFFFF)), proc_issignal = (\<lambda>w. False),
      phys_addr = (\<lambda>p. p), md_prepare = (\<lambda>w a s. 0),
      md_getPhysicalSegment = (\<lambda>w a s off. 0)\<rparr>
     (vcpu_zero\<lparr>regs := (\<lambda>_. 0)(VCPU_REGS_RAX := 1),
        cpuids := [\<lparr>func = 1, index = 0, flags = 0, eax = 0, ebx = 0,
                    ecx = 0xFFFFFFFF, edx = 0xFFFFFFFF\<rparr>]\<rparr>)
   = (1, vcpu_zero\<lparr>regs := (\<lambda>_. 0)(VCPU_REGS_RCX := 0xF3E7FDFE, VCPU_REGS_RDX := 0xF9FFFFFF),
        cpuids := [\<lparr>func = 1, index = 0, flags = 0, eax = 0, ebx = 0,
                    ecx = 0xFFFFFFFF, edx = 0xFFFFFFFF\<rparr>]\<rparr>) \<and>
   \<not> bit (0xF3E7FDFE :: ulong) 0 \<and> \<not> bit (0xF9FFFFFF :: ulong) 25"
proof -
  let ?v = "vcpu_zero\<lparr>regs := (\<lambda>_. 0)(VCPU_REGS_RAX := 1),
      cpuids := [\<lparr>func = 1, index = 0, flags = 0, eax = 0, ebx = 0,
                  ecx = 0xFFFFFFFF, edx = 0xFFFFFFFF\<rparr>]\<rparr>"
  let ?pf = "\<lparr>vmx_enter = (\<lambda>(w::unit) (r::nat \<Rightarrow> ulong) (c::ulong) (vm::vmcs_field \<Rightarrow> ulong). (w, r, c, vm)),
      cpuid = (\<lambda>a c. (0, 0, 0xFFFFFFFF, 0xFFFFFFFF)), proc_issignal = (\<lambda>w. False),
      phys_addr = (\<lambda>p. p), md_prepare = (\<lambda>w a s. 0),
      md_getPhysicalSegment = (\<lambda>w a s off. 0)\<rparr>"
  have a: "ucast (regs ?v VCPU_REGS_RAX) = (1 :: u32)" by simp
  have e: "handle_cpuid ?pf ?v
   = (1, vcpu_zero\<lparr>regs := (\<lambda>_. 0)(VCPU_REGS_RCX := 0xF3E7FDFE, VCPU_REGS_RDX := 0xF9FFFFFF),
        cpuids := [\<lparr>func = 1, index = 0, flags = 0, eax = 0, ebx = 0,
                    ecx = 0xFFFFFFFF, edx = 0xFFFFFFFF\<rparr>]\<rparr>)"
    by (simp add: handle_cpuid_def Let_def skip_emulated_instruction_def vcpu_zero_def
          VCPU_REGS_defs fun_eq_iff)
  from handle_cpuid_function_1_masked [OF a, of ?pf] a e
  show ?thesis by (simp add: VCPU_REGS_defs)
qed

lemma dispatch_io:
  "dispatch_exit pf h EXIT_REASON_IO_INSTRUCTION m =
     Some (0, m\<lparr>cpu := snd (handle_io (cpu m))\<rparr>)"
  by (simp add: dispatch_exit_def kvm_vmx_exit_handlers_def kvm_vmx_max_exit_handlers_def
        EXIT_REASON_EXTERNAL_INTERRUPT_def EXIT_REASON_CPUID_def EXIT_REASON_IO_INSTRUCTION_def
        on_vcpu_def handle_io_def Let_def)

lemma handle_io_facts:
  "fst (handle_io v) = 0"
  "regs (snd (handle_io v)) =
     (regs v)(VCPU_REGS_RIP := regs v VCPU_REGS_RIP + scast (exit_instruction_len v))"
  "exit_reason (kvm_vcpu (snd (handle_io v))) = KVM_EXIT_IO"
  by (simp_all add: handle_io_def Let_def skip_emulated_instruction_def)

lemma kvm_run_loop_stop: "kvm_run_loop pf h k 0 r m tr = Some (k, 0, r, m, tr)"
  by (subst kvm_run_loop.simps) simp

lemma kvm_run_loop_step:
  assumes "cont \<noteq> 0" "maxcont < 1000" "run_iteration pf h (Suc maxcont) r m = Some (s, m')"
  shows "kvm_run_loop pf h maxcont cont r m tr =
           (if step_error s \<noteq> 0
            then Some (Suc maxcont, step_cont s, step_reason s, m', tr @ [s])
            else kvm_run_loop pf h (Suc maxcont) (step_cont s) (step_reason s) m' (tr @ [s]))"
  using assms by (subst kvm_run_loop.simps) simp

text \<open>
  C5, as the code has it. The I/O handler advances the instruction pointer by the
  instruction length, sets the exit reason of the run structure to \<open>KVM_EXIT_IO\<close>
  and returns 0, which is ``stop'': the pass of the run loop that sees an I/O exit
  is its last one, and control returns to the caller.
\<close>

theorem handle_io_skips_and_stops:
  "fst (handle_io v) = 0 \<and>
   regs (snd (handle_io v)) =
     (regs v)(VCPU_REGS_RIP := regs v VCPU_REGS_RIP + scast (exit_instruction_len v)) \<and>
   exit_reason (kvm_vcpu (snd (handle_io v))) = KVM_EXIT_IO \<and>
   (n < 1000 \<and>
    ucast (vmcs_read32 VM_EXIT_REASON (cpu (enter_guest pf r m))) = EXIT_REASON_IO_INSTRUCTION
    \<longrightarrow> (\<exists>s m'. kvm_run_loop pf h n 1 r m tr
                    = Some (Suc n, 0, EXIT_REASON_IO_INSTRUCTION, m', tr @ [s]) \<and>
                  step_cont s = 0 \<and> exit_reason (kvm_vcpu (cpu m')) = KVM_EXIT_IO))"
proof (intro conjI impI)
  assume a: "n < 1000 \<and>
    ucast (vmcs_read32 VM_EXIT_REASON (cpu (enter_guest pf r m))) = EXIT_REASON_IO_INSTRUCTION"
  let ?m1 = "enter_guest pf r m"
  let ?m2 = "?m1\<lparr>cpu := snd (handle_io (cpu ?m1))\<rparr>"
  let ?m3 = "?m2\<lparr>cpu := RELEASE_VMCS (cpu ?m2)\<rparr>"
  let ?s = "\<lparr>step_reason = EXIT_REASON_IO_INSTRUCTION, step_cont = 0,
             step_error = ucast (vmcs_read32 VM_INSTRUCTION_ERROR (cpu ?m1))\<rparr>"
  have it: "run_iteration pf h (Suc n) r m = Some (?s, ?m3)"
    using a by (simp add: run_iteration_def Let_def dispatch_io)
  have lp: "kvm_run_loop pf h n 1 r m tr
          = Some (Suc n, 0, EXIT_REASON_IO_INSTRUCTION, ?m3, tr @ [?s])"
    using a by (simp add: kvm_run_loop_step [OF _ _ it] kvm_run_loop_stop)
  moreover have "exit_reason (kvm_vcpu (cpu ?m3)) = KVM_EXIT_IO"
    by (simp add: RELEASE_VMCS_def handle_io_facts)
  ultimately show "\<exists>s m'. kvm_run_loop pf h n 1 r m tr
                    = Some (Suc n, 0, EXIT_REASON_IO_INSTRUCTION, m', tr @ [s]) \<and>
                  step_cont s = 0 \<and> exit_reason (kvm_vcpu (cpu m')) = KVM_EXIT_IO"
    by (intro exI [of _ ?s] exI [of _ ?m3]) simp
qed (simp_all add: handle_io_facts)

theorem handle_io_skips_and_stops_witness:
  "(0::nat) < 1000 \<and>
   ucast (vmcs_read32 VM_EXIT_REASON (cpu (enter_guest
      \<lparr>vmx_enter = (\<lambda>w r c vm. (w, r, c, vm(VM_EXIT_REASON := 30, VM_EXIT_INSTRUCTION_LEN := 2))),
       cpuid = (\<lambda>a c. (0, 0, 0, 0)), proc_issignal = (\<lambda>w. False), phys_addr = (\<lambda>p. p),
       md_prepare = (\<lambda>w a s. 0), md_getPhysicalSegment = (\<lambda>w a s off. 0)\<rparr>
      0 \<lparr>cpu = vcpu_zero, host_msr = (\<lambda>i. 0), world = (), dmesg = []\<rparr>)))
     = EXIT_REASON_IO_INSTRUCTION \<and>
   (\<exists>s m'. kvm_run_loop
      \<lparr>vmx_enter = (\<lambda>w r c vm. (w, r, c, vm(VM_EXIT_REASON := 30, VM_EXIT_INSTRUCTION_LEN := 2))),
       cpuid = (\<lambda>a c. (0, 0, 0, 0)), proc_issignal = (\<lambda>w. False), phys_addr = (\<lambda>p. p),
       md_prepare = (\<lambda>w a s. 0), md_getPhysicalSegment = (\<lambda>w a s off. 0)\<rparr>
      \<lparr>mem = Map.empty, pool = []\<rparr> 0 1 0
      \<lparr>cpu = vcpu_zero, host_msr = (\<lambda>i. 0), world = (), dmesg = []\<rparr> []
        = Some (Suc 0, 0, EXIT_REASON_IO_INSTRUCTION, m', [s]) \<and> step_cont s = 0)"
proof -
  let ?pf = "\<lparr>vmx_enter = (\<lambda>(w::unit) (r::nat \<Rightarrow> ulong) (c::ulong) vm.
                  (w, r, c, vm(VM_EXIT_REASON := 30, VM_EXIT_INSTRUCTION_LEN := 2))),
       cpuid = (\<lambda>a c. (0, 0, 0, 0)), proc_issignal = (\<lambda>w. False), phys_addr = (\<lambda>p. p),
       md_prepare = (\<lambda>w a s. 0), md_getPhysicalSegment = (\<lambda>w a s off. 0)\<rparr>"
  let ?m = "\<lparr>cpu = vcpu_zero, host_msr = (\<lambda>i. 0), world = (), dmesg = []\<rparr>"
  have a: "ucast (vmcs_read32 VM_EXIT_REASON (cpu (enter_guest ?pf 0 ?m)))
             = EXIT_REASON_IO_INSTRUCTION"
    by (simp add: enter_guest_def Let_def kvm_run_def vcpu_zero_def LOAD_VMCS_def
          vmcs_write32_def vmcs_writel_def vmcs_read32_def vmcs_readl_def
          EXIT_REASON_IO_INSTRUCTION_def EXIT_REASON_PENDING_INTERRUPT_def)
  from handle_io_skips_and_stops [of vcpu_zero 0 ?pf 0 ?m "\<lparr>mem = Map.empty, pool = []\<rparr>" "[]"] a
  show ?thesis by auto
qed

text \<open>The claim C5 as stated fails: the I/O handler does not return ``continue''.\<close>

theorem handle_io_continue_counterexample:
  "fst (handle_io vcpu_zero) = 0 \<and> fst (handle_io vcpu_zero) \<noteq> 1"
  by (simp add: handle_io_def Let_def)

text \<open>
  C9, as the code has it. The MSR-read handler executes \<open>rdmsr\<close> on the processor
  with the guest's \<open>rcx\<close> and puts the result into \<open>rax\<close> and \<open>rdx\<close>; the MSR-write
  handler executes no instruction and changes no register of the processor. Both
  advance the instruction pointer by the instruction length and return 1.
\<close>

theorem handle_msr_skip_and_continue:
  "fst (handle_rdmsr m) = 1 \<and>
   regs (cpu (snd (handle_rdmsr m))) =
     (regs (cpu m))
       (VCPU_REGS_RAX := ucast (fst (rdmsr (host_msr m) (ucast (regs (cpu m) VCPU_REGS_RCX)))),
        VCPU_REGS_RDX := ucast (snd (rdmsr (host_msr m) (ucast (regs (cpu m) VCPU_REGS_RCX)))),
        VCPU_REGS_RIP := regs (cpu m) VCPU_REGS_RIP + scast (exit_instruction_len (cpu m))) \<and>
   host_msr (snd (handle_rdmsr m)) = host_msr m \<and>
   fst (handle_wrmsr m) = 1 \<and>
   regs (cpu (snd (handle_wrmsr m))) =
     (regs (cpu m))
       (VCPU_REGS_RIP := regs (cpu m) VCPU_REGS_RIP + scast (exit_instruction_len (cpu m))) \<and>
   host_msr (snd (handle_wrmsr m)) = host_msr m"
  by (simp add: handle_rdmsr_def handle_wrmsr_def Let_def skip_regs printk_def VCPU_REGS_defs
           split: prod.splits)

text \<open>
  The claim C9 as stated fails for writes: after the MSR-write handler the
  processor's register is not what \<open>wrmsr\<close> with the guest's values would leave.
\<close>

theorem handle_wrmsr_executes_wrmsr_counterexample:
  "host_msr (snd (handle_wrmsr
      \<lparr>cpu = vcpu_zero\<lparr>regs := (\<lambda>_. 0)(VCPU_REGS_RAX := 5, VCPU_REGS_RCX := 0x10)\<rparr>,
       host_msr = (\<lambda>_. 0), world = (), dmesg = []\<rparr>))
   \<noteq> wrmsr (\<lambda>_. 0) 0x10 5 0"
  by (simp add: handle_wrmsr_def Let_def printk_def wrmsr_def fun_eq_iff)

section \<open>Properties of the run loop\<close>

lemma ept_wf_pml4: "pml4 v' = pml4 v \<Longrightarrow> ept_wf h v' = ept_wf h v"
  by (simp add: ept_wf_def)

lemma handle_cr_total:
  assumes "ept_wf h (cpu m)"
  shows "\<exists>m'. handle_cr h m = Some (1, m') \<and> pml4 (cpu m') = pml4 (cpu m)"
proof -
  let ?v = "(cpu m)\<lparr>cr3_shadow :=
     regs (cpu m) (unat (drop_bit 8 (exit_qualification (cpu m) AND CONTROL_REG_ACCESS_REG)))\<rparr>"
  have "ept_wf h ?v" using assms by (simp add: ept_wf_def)
  from translate_total [OF this, of "cr3_shadow ?v"]
  obtain pa where "ept_translate h ?v (cr3_shadow ?v) = Some pa" by blast
  then show ?thesis
    by (auto simp: handle_cr_def Let_def printk_def skip_emulated_instruction_def
          vmcs_writel_def vmcs_write32_def vmcs_write64_def)
qed

lemmas EXIT_REASON_defs =
  EXIT_REASON_EXTERNAL_INTERRUPT_def EXIT_REASON_PENDING_INTERRUPT_def
  EXIT_REASON_TASK_SWITCH_def EXIT_REASON_CPUID_def EXIT_REASON_CR_ACCESS_def
  EXIT_REASON_DR_ACCESS_def EXIT_REASON_IO_INSTRUCTION_def EXIT_REASON_MSR_READ_def
  EXIT_REASON_MSR_WRITE_def EXIT_REASON_APIC_ACCESS_def EXIT_REASON_EPT_VIOLATION_def
  EXIT_REASON_PREEMPTION_TIMER_def

lemma skip_pml4: "pml4 (skip_emulated_instruction v) = pml4 v"
  by (simp add: skip_emulated_instruction_def)

lemma handle_external_interrupt_ok: "exit_handler_ok (\<lambda>pf. on_machine (handle_external_interrupt pf) pf)"
  by (simp add: exit_handler_ok_def on_machine_def handle_external_interrupt_def Let_def printk_def)

lemma handle_cpuid_ok: "exit_handler_ok (\<lambda>pf. on_vcpu (handle_cpuid pf) pf)"
  by (simp add: exit_handler_ok_def on_vcpu_def handle_cpuid_def Let_def skip_pml4 split: prod.splits option.splits)

lemma handle_io_ok: "exit_handler_ok (on_vcpu handle_io)"
  by (simp add: exit_handler_ok_def on_vcpu_def handle_io_def Let_def skip_pml4)

lemma handle_rdmsr_ok: "exit_handler_ok (on_machine handle_rdmsr)"
  by (simp add: exit_handler_ok_def on_machine_def handle_rdmsr_def Let_def skip_pml4 printk_def split: prod.splits)

lemma handle_wrmsr_ok: "exit_handler_ok (on_machine handle_wrmsr)"
  by (simp add: exit_handler_ok_def on_machine_def handle_wrmsr_def Let_def skip_pml4 printk_def)

lemma handle_ept_violation_ok: "exit_handler_ok (on_machine handle_ept_violation)"
  by (simp add: exit_handler_ok_def on_machine_def handle_ept_violation_def Let_def skip_pml4 printk_def)

lemma handle_preemption_timer_ok: "exit_handler_ok (on_vcpu handle_preemption_timer)"
  by (simp add: exit_handler_ok_def on_vcpu_def handle_preemption_timer_def)

lemma handle_apic_access_ok: "exit_handler_ok (on_machine handle_apic_access)"
  by (simp add: exit_handler_ok_def on_machine_def handle_apic_access_def Let_def skip_pml4 printk_def)

lemma handle_interrupt_window_ok: "exit_handler_ok (on_vcpu handle_interrupt_window)"
  by (simp add: exit_handler_ok_def on_vcpu_def handle_interrupt_window_def)

lemma handle_cr_ok: "exit_handler_ok (\<lambda>pf h m. handle_cr h m)"
  using handle_cr_total by (fastforce simp: exit_handler_ok_def)

lemma handle_dr_ok: "exit_handler_ok (on_vcpu handle_dr)"
  by (simp add: exit_handler_ok_def on_vcpu_def handle_dr_def skip_pml4)

lemma handle_task_switch_ok: "exit_handler_ok (on_machine handle_task_switch)"
  by (simp add: exit_handler_ok_def on_machine_def handle_task_switch_def printk_def)

lemmas handlers_ok =
  handle_external_interrupt_ok handle_cpuid_ok handle_io_ok handle_rdmsr_ok handle_wrmsr_ok
  handle_ept_violation_ok handle_preemption_timer_ok handle_apic_access_ok
  handle_interrupt_window_ok handle_cr_ok handle_dr_ok handle_task_switch_ok

lemma table_handlers_ok:
  assumes "kvm_vmx_exit_handlers r = Some handler"
  shows "exit_handler_ok handler"
proof -
  from assms have "(r, handler) \<in> set 
     [ (EXIT_REASON_EXTERNAL_INTERRUPT, \<lambda>pf. on_machine (handle_external_interrupt pf) pf),
       (EXIT_REASON_CPUID, \<lambda>pf. on_vcpu (handle_cpuid pf) pf),
       (EXIT_REASON_IO_INSTRUCTION, on_vcpu handle_io),
       (EXIT_REASON_MSR_READ, on_machine handle_rdmsr),
       (EXIT_REASON_MSR_WRITE, on_machine handle_wrmsr),
       (EXIT_REASON_EPT_VIOLATION, on_machine handle_ept_violation),
       (EXIT_REASON_PREEMPTION_TIMER, on_vcpu handle_preemption_timer),
       (EXIT_REASON_APIC_ACCESS, on_machine handle_apic_access),
       (EXIT_REASON_PENDING_INTERRUPT, on_vcpu handle_interrupt_window),
       (EXIT_REASON_CR_ACCESS, \<lambda>pf h m. handle_cr h m),
       (EXIT_REASON_DR_ACCESS, on_vcpu handle_dr),
       (EXIT_REASON_TASK_SWITCH, on_machine handle_task_switch) ]"
    unfolding kvm_vmx_exit_handlers_def by (rule map_of_SomeD)
  then show ?thesis
    by (simp only: set_simps insert_iff empty_iff prod.inject) (elim disjE conjE; simp only: handlers_ok | simp)
qed

lemma dispatch_total:
  assumes "ept_wf h (cpu m)"
  shows "\<exists>c m'. dispatch_exit pf h r m = Some (c, m') \<and> pml4 (cpu m') = pml4 (cpu m) \<and>
           (c = 0 \<or> c = 1)"
proof (cases "r < kvm_vmx_max_exit_handlers")
  case False
  then show ?thesis by (simp add: dispatch_exit_def)
next
  case True
  show ?thesis
  proof (cases "kvm_vmx_exit_handlers r :: 'a exit_handler option")
    case None
    with True show ?thesis by (simp add: dispatch_exit_def)
  next
    case (Some handler)
    from table_handlers_ok [OF this] assms
    have "\<exists>c m'. handler pf h m = Some (c, m') \<and> pml4 (cpu m') = pml4 (cpu m) \<and> (c = 0 \<or> c = 1)"
      by (simp add: exit_handler_ok_def)
    with True Some show ?thesis by (simp add: dispatch_exit_def)
  qed
qed


lemma inject_pml4: "pml4 (snd (inject_pending_irq v)) = pml4 v"
  by (simp add: inject_pending_irq_def split: option.splits)

lemma kvm_run_pml4: "pml4 (cpu (kvm_run pf m)) = pml4 (cpu m)"
  by (simp add: kvm_run_def Let_def vmcs_writel_def split: prod.splits)

lemma vmcs_write32_pml4: "pml4 (vmcs_write32 f x v) = pml4 v"
  by (simp add: vmcs_write32_def)

lemma enter_guest_pml4: "pml4 (cpu (enter_guest pf r m)) = pml4 (cpu m)"
  by (simp add: enter_guest_def Let_def kvm_run_pml4 vmcs_write32_pml4 LOAD_VMCS_def
        split_beta inject_pml4)

lemma run_iteration_total:
  assumes wf: "ept_wf h (cpu m)"
  shows "\<exists>s m'. run_iteration pf h n r m = Some (s, m') \<and> ept_wf h (cpu m') \<and>
           (step_cont s = 0 \<or> step_cont s = 1)"
proof -
  let ?m1 = "enter_guest pf r m"
  have "ept_wf h (cpu ?m1)" using wf by (simp add: ept_wf_def enter_guest_pml4)
  from dispatch_total [OF this, of pf "ucast (vmcs_read32 VM_EXIT_REASON (cpu ?m1))"]
  obtain c m2 where d: "dispatch_exit pf h (ucast (vmcs_read32 VM_EXIT_REASON (cpu ?m1))) ?m1 = Some (c, m2)"
    and p: "pml4 (cpu m2) = pml4 (cpu ?m1)" and c: "c = 0 \<or> c = 1" by blast
  from p wf have "ept_wf h (cpu m2)" by (simp add: ept_wf_def enter_guest_pml4)
  with d c show ?thesis
    by (auto simp: run_iteration_def Let_def RELEASE_VMCS_def printk_def ept_wf_def)
qed

lemma kvm_run_loop_total:
  assumes "ept_wf h (cpu m)"
  shows "\<exists>mc c r' m' ext. kvm_run_loop pf h maxcont cont r m tr = Some (mc, c, r', m', tr @ ext) \<and>
           length ext \<le> 1000 - maxcont \<and>
           c = (if ext = [] then cont else step_cont (last ext)) \<and>
           r' = (if ext = [] then r else step_reason (last ext)) \<and>
           (maxcont \<le> 1000 \<longrightarrow> mc \<le> 1001) \<and>
           (cont \<noteq> 0 \<and> maxcont < 1000 \<longrightarrow> ext \<noteq> []) \<and>
           (cont \<noteq> 0 \<and> maxcont \<le> 1000 \<and> (\<forall>s \<in> set ext. step_cont s \<noteq> 0 \<and> step_error s = 0)
              \<longrightarrow> length ext = 1000 - maxcont \<and> mc = 1001)"
  using assms
proof (induction pf h maxcont cont r m tr rule: kvm_run_loop.induct)
  case (1 pf h maxcont cont r m tr)
  show ?case
  proof (cases "cont \<noteq> 0 \<and> maxcont < 1000")
    case False
    then show ?thesis by (subst kvm_run_loop.simps) auto
  next
    case True
    from run_iteration_total [OF "1.prems", of pf "Suc maxcont" r]
    obtain s m' where it: "run_iteration pf h (Suc maxcont) r m = Some (s, m')"
      and wf': "ept_wf h (cpu m')" by blast
    show ?thesis
    proof (cases "step_error s \<noteq> 0")
      case e: True
      have "kvm_run_loop pf h maxcont cont r m tr
              = Some (Suc maxcont, step_cont s, step_reason s, m', tr @ [s])"
        using True it e by (subst kvm_run_loop.simps) simp
      with True e show ?thesis by auto
    next
      case e: False
      from "1.IH" [OF True it refl e wf']
      obtain mc c r' m'' ext where
        rec: "kvm_run_loop pf h (Suc maxcont) (step_cont s) (step_reason s) m' (tr @ [s])
                = Some (mc, c, r', m'', (tr @ [s]) @ ext)" and
        len: "length ext \<le> 1000 - Suc maxcont" and
        c: "c = (if ext = [] then step_cont s else step_cont (last ext))" and
        r': "r' = (if ext = [] then step_reason s else step_reason (last ext))" and
        mc: "Suc maxcont \<le> 1000 \<longrightarrow> mc \<le> 1001" and
        full: "step_cont s \<noteq> 0 \<and> Suc maxcont \<le> 1000 \<and>
                 (\<forall>s \<in> set ext. step_cont s \<noteq> 0 \<and> step_error s = 0)
               \<longrightarrow> length ext = 1000 - Suc maxcont \<and> mc = 1001"
        by blast
      have eq: "kvm_run_loop pf h maxcont cont r m tr = Some (mc, c, r', m'', tr @ (s # ext))"
        using True it e rec by (subst kvm_run_loop.simps) simp
      have "length (s # ext) \<le> 1000 - maxcont" using len True by auto
      moreover have "c = (if s # ext = [] then cont else step_cont (last (s # ext)))"
        using c by simp
      moreover have "r' = (if s # ext = [] then r else step_reason (last (s # ext)))"
        using r' by simp
      moreover have "maxcont \<le> 1000 \<longrightarrow> mc \<le> 1001" using mc True by simp
      moreover have "cont \<noteq> 0 \<and> maxcont < 1000 \<longrightarrow> s # ext \<noteq> []" by simp
      moreover have "cont \<noteq> 0 \<and> maxcont \<le> 1000 \<and>
              (\<forall>s \<in> set (s # ext). step_cont s \<noteq> 0 \<and> step_error s = 0)
            \<longrightarrow> length (s # ext) = 1000 - maxcont \<and> mc = 1001"
        using full True by auto
      ultimately show ?thesis using eq by blast
    qed
  qed
qed

lemma kvm_run_loop_trace:
  assumes "\<forall>n r m s m'. run_iteration pf h n r m = Some (s, m') \<longrightarrow> P s"
    and "kvm_run_loop pf h maxcont cont r m tr = Some (mc, c, r', m', tr')"
    and "\<forall>s \<in> set tr. P s"
  shows "\<forall>s \<in> set tr'. P s"
  using assms
proof (induction pf h maxcont cont r m tr rule: kvm_run_loop.induct)
  case (1 pf h maxcont cont r m tr)
  note it = "1.prems"(1) and lp = "1.prems"(2) and tr = "1.prems"(3)
  show ?case
  proof (cases "cont \<noteq> 0 \<and> maxcont < 1000")
    case False
    with lp tr show ?thesis by (subst (asm) kvm_run_loop.simps) auto
  next
    case True
    show ?thesis
    proof (cases "run_iteration pf h (Suc maxcont) r m")
      case None
      with True lp show ?thesis by (subst (asm) kvm_run_loop.simps) simp
    next
      case (Some sm)
      obtain s m1 where sm: "sm = (s, m1)" by (cases sm)
      have Ps: "P s" using Some [unfolded sm] it by blast
      show ?thesis
      proof (cases "step_error s \<noteq> 0")
        case e: True
        with True Some sm lp tr Ps show ?thesis
          by (subst (asm) kvm_run_loop.simps) auto
      next
        case e: False
        have "kvm_run_loop pf h (Suc maxcont) (step_cont s) (step_reason s) m1 (tr @ [s])
                = Some (mc, c, r', m', tr')"
          using True Some sm e lp by (subst (asm) kvm_run_loop.simps) simp
        moreover have "\<forall>x \<in> set (tr @ [s]). P x" using tr Ps by simp
        ultimately show ?thesis
          using "1.IH" [OF True Some [unfolded sm] refl e it] by blast
      qed
    qed
  qed
qed

text \<open>A platform on which every exit is a CPUID exit without an instruction error.\<close>

lemma cpuid_platform_step:
  fixes pf :: "unit platform"
  assumes pf: "vmx_enter pf = (\<lambda>w r c vm. (w, r, c, vm(VM_EXIT_REASON := 10, VM_INSTRUCTION_ERROR := 0)))"
    and it: "run_iteration pf h n r m = Some (s, m')"
  shows "step_cont s = 1 \<and> step_error s = 0 \<and> step_reason s = EXIT_REASON_CPUID"
proof -
  let ?m1 = "enter_guest pf r m"
  have vm: "vmcs (cpu ?m1) VM_EXIT_REASON = 10" "vmcs (cpu ?m1) VM_INSTRUCTION_ERROR = 0"
    by (simp_all add: enter_guest_def Let_def kvm_run_def pf split_beta vmcs_readl_def
          vmcs_read32_def)
  have d: "dispatch_exit pf h EXIT_REASON_CPUID ?m1 =
             Some (1, ?m1\<lparr>cpu := snd (handle_cpuid pf (cpu ?m1))\<rparr>)"
    by (simp add: dispatch_exit_def kvm_vmx_exit_handlers_def kvm_vmx_max_exit_handlers_def
          EXIT_REASON_EXTERNAL_INTERRUPT_def EXIT_REASON_CPUID_def on_vcpu_def
          handle_cpuid_def Let_def split_beta)
  from it vm d show ?thesis
    by (auto simp: run_iteration_def Let_def vmcs_read32_def EXIT_REASON_CPUID_def)
qed

lemma skip_kvm_vcpu: "kvm_vcpu (skip_emulated_instruction v) = kvm_vcpu v"
  by (simp add: skip_emulated_instruction_def)

lemma handle_external_interrupt_keeps:
  "exit_handler_keeps_run (\<lambda>pf. on_machine (handle_external_interrupt pf) pf)"
  by (auto simp: exit_handler_keeps_run_def on_machine_def handle_external_interrupt_def
        Let_def printk_def split: if_splits)

lemma handle_cpuid_keeps: "exit_handler_keeps_run (\<lambda>pf. on_vcpu (handle_cpuid pf) pf)"
  by (auto simp: exit_handler_keeps_run_def on_vcpu_def handle_cpuid_def Let_def
        skip_kvm_vcpu split_beta)

lemma handle_io_keeps: "exit_handler_keeps_run (on_vcpu handle_io)"
  by (auto simp: exit_handler_keeps_run_def on_vcpu_def handle_io_def Let_def)

lemma handle_rdmsr_keeps: "exit_handler_keeps_run (on_machine handle_rdmsr)"
  by (auto simp: exit_handler_keeps_run_def on_machine_def handle_rdmsr_def Let_def
        skip_kvm_vcpu printk_def split_beta)

lemma handle_wrmsr_keeps: "exit_handler_keeps_run (on_machine handle_wrmsr)"
  by (auto simp: exit_handler_keeps_run_def on_machine_def handle_wrmsr_def Let_def
        skip_kvm_vcpu printk_def)

lemma handle_ept_violation_keeps: "exit_handler_keeps_run (on_machine handle_ept_violation)"
  by (auto simp: exit_handler_keeps_run_def on_machine_def handle_ept_violation_def Let_def
        skip_kvm_vcpu printk_def)

lemma handle_preemption_timer_keeps: "exit_handler_keeps_run (on_vcpu handle_preemption_timer)"
  by (auto simp: exit_handler_keeps_run_def on_vcpu_def handle_preemption_timer_def)

lemma handle_apic_access_keeps: "exit_handler_keeps_run (on_machine handle_apic_access)"
  by (auto simp: exit_handler_keeps_run_def on_machine_def handle_apic_access_def Let_def
        skip_kvm_vcpu printk_def)

lemma handle_interrupt_window_keeps: "exit_handler_keeps_run (on_vcpu handle_interrupt_window)"
  by (auto simp: exit_handler_keeps_run_def on_vcpu_def handle_interrupt_window_def)

lemma handle_cr_keeps_aux:
  assumes "handle_cr h m = Some (c, m')"
  shows "c = 1 \<and> kvm_vcpu (cpu m') = kvm_vcpu (cpu m)"
  using assms
  by (auto simp: handle_cr_def Let_def printk_def skip_kvm_vcpu vmcs_writel_def
        vmcs_write32_def vmcs_write64_def split: bind_splits if_splits)

lemma handle_cr_keeps: "exit_handler_keeps_run (\<lambda>pf h m. handle_cr h m)"
  using handle_cr_keeps_aux by (fastforce simp: exit_handler_keeps_run_def)

lemma handle_dr_keeps: "exit_handler_keeps_run (on_vcpu handle_dr)"
  by (auto simp: exit_handler_keeps_run_def on_vcpu_def handle_dr_def skip_kvm_vcpu)

lemma handle_task_switch_keeps: "exit_handler_keeps_run (on_machine handle_task_switch)"
  by (auto simp: exit_handler_keeps_run_def on_machine_def handle_task_switch_def printk_def)

lemmas handlers_keep =
  handle_external_interrupt_keeps handle_cpuid_keeps handle_io_keeps handle_rdmsr_keeps
  handle_wrmsr_keeps handle_ept_violation_keeps handle_preemption_timer_keeps
  handle_apic_access_keeps handle_interrupt_window_keeps handle_cr_keeps handle_dr_keeps
  handle_task_switch_keeps

lemma table_handlers_keep:
  assumes "kvm_vmx_exit_handlers r = Some handler"
  shows "exit_handler_keeps_run handler"
proof -
  from assms have "(r, handler) \<in> set
     [ (EXIT_REASON_EXTERNAL_INTERRUPT, \<lambda>pf. on_machine (handle_external_interrupt pf) pf),
       (EXIT_REASON_CPUID, \<lambda>pf. on_vcpu (handle_cpuid pf) pf),
       (EXIT_REASON_IO_INSTRUCTION, on_vcpu handle_io),
       (EXIT_REASON_MSR_READ, on_machine handle_rdmsr),
       (EXIT_REASON_MSR_WRITE, on_machine handle_wrmsr),
       (EXIT_REASON_EPT_VIOLATION, on_machine handle_ept_violation),
       (EXIT_REASON_PREEMPTION_TIMER, on_vcpu handle_preemption_timer),
       (EXIT_REASON_APIC_ACCESS, on_machine handle_apic_access),
       (EXIT_REASON_PENDING_INTERRUPT, on_vcpu handle_interrupt_window),
       (EXIT_REASON_CR_ACCESS, \<lambda>pf h m. handle_cr h m),
       (EXIT_REASON_DR_ACCESS, on_vcpu handle_dr),
       (EXIT_REASON_TASK_SWITCH, on_machine handle_task_switch) ]"
    unfolding kvm_vmx_exit_handlers_def by (rule map_of_SomeD)
  then show ?thesis
    by (simp only: set_simps insert_iff empty_iff prod.inject)
       (elim disjE conjE; simp only: handlers_keep | simp)
qed

lemma dispatch_keeps:
  assumes "dispatch_exit pf h r m = Some (c, m')"
  shows "(c = 0 \<or> c = 1) \<and> (c \<noteq> 0 \<longrightarrow> kvm_vcpu (cpu m') = kvm_vcpu (cpu m))"
proof (cases "r < kvm_vmx_max_exit_handlers")
  case False
  with assms show ?thesis by (simp add: dispatch_exit_def)
next
  case True
  show ?thesis
  proof (cases "kvm_vmx_exit_handlers r :: 'a exit_handler option")
    case None
    with True assms show ?thesis by (simp add: dispatch_exit_def)
  next
    case (Some handler)
    with True assms have "handler pf h m = Some (c, m')" by (simp add: dispatch_exit_def)
    with table_handlers_keep [OF Some] show ?thesis
      unfolding exit_handler_keeps_run_def by blast
  qed
qed

lemma inject_kvm_vcpu: "kvm_vcpu (snd (inject_pending_irq v)) = kvm_vcpu v"
  by (simp add: inject_pending_irq_def split: option.splits)

lemma kvm_run_kvm_vcpu: "kvm_vcpu (cpu (kvm_run pf m)) = kvm_vcpu (cpu m)"
  by (simp add: kvm_run_def Let_def vmcs_writel_def split: prod.splits)

lemma vmcs_write32_kvm_vcpu: "kvm_vcpu (vmcs_write32 f x v) = kvm_vcpu v"
  by (simp add: vmcs_write32_def)

lemma enter_guest_kvm_vcpu: "kvm_vcpu (cpu (enter_guest pf r m)) = kvm_vcpu (cpu m)"
  by (simp add: enter_guest_def Let_def kvm_run_kvm_vcpu vmcs_write32_kvm_vcpu LOAD_VMCS_def
        split_beta inject_kvm_vcpu)

lemma run_iteration_keeps:
  assumes "run_iteration pf h n r m = Some (s, m')"
  shows "(step_cont s = 0 \<or> step_cont s = 1) \<and>
         (step_cont s \<noteq> 0 \<longrightarrow> kvm_vcpu (cpu m') = kvm_vcpu (cpu m))"
proof -
  let ?m1 = "enter_guest pf r m"
  from assms obtain c m2 where
    d: "dispatch_exit pf h (ucast (vmcs_read32 VM_EXIT_REASON (cpu ?m1))) ?m1 = Some (c, m2)" and
    s: "step_cont s = c" and m': "kvm_vcpu (cpu m') = kvm_vcpu (cpu m2)"
    by (auto simp: run_iteration_def Let_def RELEASE_VMCS_def printk_def
          split: bind_splits if_splits)
  from dispatch_keeps [OF d] s m' show ?thesis by (simp add: enter_guest_kvm_vcpu)
qed

lemma kvm_run_loop_done:
  assumes "\<not> (cont \<noteq> 0 \<and> maxcont < 1000)"
  shows "kvm_run_loop pf h maxcont cont r m tr =
           Some (if cont \<noteq> 0 then Suc maxcont else maxcont, cont, r, m, tr)"
  using assms by (subst kvm_run_loop.simps) auto

lemma kvm_run_loop_steps:
  assumes "kvm_run_loop pf h maxcont cont r m tr = Some (mc, c, r', m', tr')"
  shows "\<exists>ext. tr' = tr @ ext \<and> run_steps pf h maxcont r m ext = Some m' \<and>
           (cont = 0 \<longrightarrow> ext = []) \<and>
           (\<forall>s \<in> set ext. step_cont s = 0 \<or> step_cont s = 1) \<and>
           (\<forall>i. Suc i < length ext \<longrightarrow> step_cont (ext ! i) \<noteq> 0 \<and> step_error (ext ! i) = 0) \<and>
           mc = (if c \<noteq> 0 \<and> (ext = [] \<or> step_error (last ext) = 0)
                 then Suc (maxcont + length ext) else maxcont + length ext) \<and>
           ((\<forall>s \<in> set ext. step_cont s \<noteq> 0) \<longrightarrow> kvm_vcpu (cpu m') = kvm_vcpu (cpu m))"
  using assms
proof (induction pf h maxcont cont r m tr rule: kvm_run_loop.induct)
  case (1 pf h maxcont cont r m tr)
  note lp = "1.prems"
  show ?case
  proof (cases "cont \<noteq> 0 \<and> maxcont < 1000")
    case False
    from lp have "mc = (if cont \<noteq> 0 then Suc maxcont else maxcont)" "c = cont" "m' = m" "tr' = tr"
      unfolding kvm_run_loop_done [OF False] by auto
    then show ?thesis by (intro exI [of _ "[]"]) auto
  next
    case True
    show ?thesis
    proof (cases "run_iteration pf h (Suc maxcont) r m")
      case None
      have "kvm_run_loop pf h maxcont cont r m tr = None"
        using True None by (subst kvm_run_loop.simps) simp
      with lp show ?thesis by simp
    next
      case (Some sm)
      obtain s m1 where sm: "sm = (s, m1)" by (cases sm)
      note it = Some [unfolded sm]
      note keep = run_iteration_keeps [OF it]
      show ?thesis
      proof (cases "step_error s \<noteq> 0")
        case e: True
        from True have t: "cont \<noteq> 0" "maxcont < 1000" by simp_all
        from lp e have res: "mc = Suc maxcont" "c = step_cont s" "m' = m1" "tr' = tr @ [s]"
          unfolding kvm_run_loop_step [OF t it] by simp_all
        have "run_steps pf h maxcont r m [s] = Some m'" using it res by simp
        with res e True keep show ?thesis by (intro exI [of _ "[s]"]) auto
      next
        case e: False
        from True have t: "cont \<noteq> 0" "maxcont < 1000" by simp_all
        have rec: "kvm_run_loop pf h (Suc maxcont) (step_cont s) (step_reason s) m1 (tr @ [s])
                = Some (mc, c, r', m', tr')"
          using lp e unfolding kvm_run_loop_step [OF t it] by simp
        from "1.IH" [OF True it refl e rec]
        obtain ext where
          tr': "tr' = (tr @ [s]) @ ext" and
          ch: "run_steps pf h (Suc maxcont) (step_reason s) m1 ext = Some m'" and
          c0: "step_cont s = 0 \<longrightarrow> ext = []" and
          bin: "\<forall>s \<in> set ext. step_cont s = 0 \<or> step_cont s = 1" and
          pre: "\<forall>i. Suc i < length ext \<longrightarrow> step_cont (ext ! i) \<noteq> 0 \<and> step_error (ext ! i) = 0" and
          mc: "mc = (if c \<noteq> 0 \<and> (ext = [] \<or> step_error (last ext) = 0)
                 then Suc (Suc maxcont + length ext) else Suc maxcont + length ext)" and
          kv: "(\<forall>s \<in> set ext. step_cont s \<noteq> 0) \<longrightarrow> kvm_vcpu (cpu m') = kvm_vcpu (cpu m1)"
          by blast
        have "tr' = tr @ (s # ext)" using tr' by simp
        moreover have "run_steps pf h maxcont r m (s # ext) = Some m'" using it ch by simp
        moreover have "cont = 0 \<longrightarrow> s # ext = []" using True by simp
        moreover have "\<forall>x \<in> set (s # ext). step_cont x = 0 \<or> step_cont x = 1"
          using bin keep by simp
        moreover have "\<forall>i. Suc i < length (s # ext) \<longrightarrow>
                         step_cont ((s # ext) ! i) \<noteq> 0 \<and> step_error ((s # ext) ! i) = 0"
        proof (intro allI impI)
          fix i assume i: "Suc i < length (s # ext)"
          show "step_cont ((s # ext) ! i) \<noteq> 0 \<and> step_error ((s # ext) ! i) = 0"
          proof (cases i)
            case 0
            with i have "ext \<noteq> []" by auto
            with c0 e 0 show ?thesis by auto
          next
            case (Suc j)
            with i pre show ?thesis by simp
          qed
        qed
        moreover have "mc = (if c \<noteq> 0 \<and> (s # ext = [] \<or> step_error (last (s # ext)) = 0)
                 then Suc (maxcont + length (s # ext)) else maxcont + length (s # ext))"
          using mc e by simp
        moreover have "(\<forall>x \<in> set (s # ext). step_cont x \<noteq> 0)
                         \<longrightarrow> kvm_vcpu (cpu m') = kvm_vcpu (cpu m)"
          using kv keep by simp
        ultimately show ?thesis by blast
      qed
    qed
  qed
qed

lemma kvm_run_prologue_facts:
  "pml4 (kvm_run_prologue v) = pml4 v"
  "exit_reason (kvm_vcpu (kvm_run_prologue v)) = 0"
  by (simp_all add: kvm_run_prologue_def Let_def)

lemma kvm_run_wrapper_loop:
  assumes "kvm_run_loop pf h 0 1 0 (m\<lparr>cpu := kvm_run_prologue (cpu m)\<rparr>) [] = Some (mc, c, r', m', tr)"
  shows "kvm_run_wrapper pf h m =
           Some (0, if c = 1 then printk (Diag_exit_from_timeout mc r') m' else m', tr)"
  using assms by (simp add: kvm_run_wrapper_def Let_def)

text \<open>
  What a run is, on a well-formed tree: the loop returns after one to 1000 passes,
  which form a chain from the prologue's machine; every pass but the last ended
  with \<open>cont\<close> 1 and no instruction error, and a run of fewer than 1000 passes
  ended with \<open>cont\<close> 0 or with an instruction error.
\<close>

lemma kvm_run_loop_result:
  assumes "ept_wf h (cpu m)"
  shows "\<exists>mc m1 tr.
           kvm_run_loop pf h 0 1 0 (m\<lparr>cpu := kvm_run_prologue (cpu m)\<rparr>) []
             = Some (mc, step_cont (last tr), step_reason (last tr), m1, tr) \<and>
           run_steps pf h 0 0 (m\<lparr>cpu := kvm_run_prologue (cpu m)\<rparr>) tr = Some m1 \<and>
           tr \<noteq> [] \<and> length tr \<le> 1000 \<and>
           (\<forall>s \<in> set tr. step_cont s = 0 \<or> step_cont s = 1) \<and>
           (\<forall>i. Suc i < length tr \<longrightarrow> step_cont (tr ! i) = 1 \<and> step_error (tr ! i) = 0) \<and>
           (length tr < 1000 \<longrightarrow> step_cont (last tr) = 0 \<or> step_error (last tr) \<noteq> 0) \<and>
           (step_cont (last tr) = 1 \<longrightarrow>
              mc = (if step_error (last tr) = 0 then 1001 else length tr)) \<and>
           ((\<forall>s \<in> set tr. step_cont s = 1) \<longrightarrow> exit_reason (kvm_vcpu (cpu m1)) = 0)"
proof -
  let ?m0 = "m\<lparr>cpu := kvm_run_prologue (cpu m)\<rparr>"
  have wf: "ept_wf h (cpu ?m0)" using assms by (simp add: ept_wf_def kvm_run_prologue_facts)
  from kvm_run_loop_total [OF wf, of pf 0 1 0 "[]"]
  obtain mc c r' m1 tr where
    lp0: "kvm_run_loop pf h 0 1 0 ?m0 [] = Some (mc, c, r', m1, [] @ tr)" and
    len0: "length tr \<le> 1000 - 0" and
    c0: "c = (if tr = [] then 1 else step_cont (last tr))" and
    r0: "r' = (if tr = [] then 0 else step_reason (last tr))" and
    ne0: "(1::int) \<noteq> 0 \<and> (0::nat) < 1000 \<longrightarrow> tr \<noteq> []" and
    full0: "(1::int) \<noteq> 0 \<and> (0::nat) \<le> 1000 \<and>
              (\<forall>s \<in> set tr. step_cont s \<noteq> 0 \<and> step_error s = 0)
            \<longrightarrow> length tr = 1000 - 0 \<and> mc = 1001"
    by blast
  have ne: "tr \<noteq> []" using ne0 by simp
  have len: "length tr \<le> 1000" using len0 by simp
  have c: "c = step_cont (last tr)" and r': "r' = step_reason (last tr)"
    using c0 r0 ne by simp_all
  have lp: "kvm_run_loop pf h 0 1 0 ?m0 [] = Some (mc, step_cont (last tr), step_reason (last tr), m1, tr)"
    using lp0 c r' by simp
  have full: "(\<forall>s \<in> set tr. step_cont s \<noteq> 0 \<and> step_error s = 0) \<Longrightarrow> length tr = 1000"
    using full0 by simp
  from kvm_run_loop_steps [OF lp]
  obtain ext where
    e: "tr = [] @ ext" and
    ch0: "run_steps pf h 0 0 ?m0 ext = Some m1" and
    bin0: "\<forall>s \<in> set ext. step_cont s = 0 \<or> step_cont s = 1" and
    pre0: "\<forall>i. Suc i < length ext \<longrightarrow> step_cont (ext ! i) \<noteq> 0 \<and> step_error (ext ! i) = 0" and
    mc0: "mc = (if step_cont (last tr) \<noteq> 0 \<and> (ext = [] \<or> step_error (last ext) = 0)
                 then Suc (0 + length ext) else 0 + length ext)" and
    kv0: "(\<forall>s \<in> set ext. step_cont s \<noteq> 0) \<longrightarrow> kvm_vcpu (cpu m1) = kvm_vcpu (cpu ?m0)"
    by blast
  from e have ext: "ext = tr" by simp
  note ch = ch0 [unfolded ext] and bin = bin0 [unfolded ext] and pre = pre0 [unfolded ext]
    and kv = kv0 [unfolded ext]
  have mc: "mc = (if step_cont (last tr) \<noteq> 0 \<and> step_error (last tr) = 0
                  then Suc (length tr) else length tr)"
    using mc0 ne unfolding ext by simp
  have pre1: "\<forall>i. Suc i < length tr \<longrightarrow> step_cont (tr ! i) = 1 \<and> step_error (tr ! i) = 0"
  proof (intro allI impI)
    fix i assume i: "Suc i < length tr"
    then have "tr ! i \<in> set tr" by simp
    with bin pre i show "step_cont (tr ! i) = 1 \<and> step_error (tr ! i) = 0" by blast
  qed
  have allc: "step_cont (last tr) \<noteq> 0 \<Longrightarrow> step_error (last tr) = 0 \<Longrightarrow>
              \<forall>s \<in> set tr. step_cont s \<noteq> 0 \<and> step_error s = 0"
  proof
    fix s assume l: "step_cont (last tr) \<noteq> 0" "step_error (last tr) = 0" and "s \<in> set tr"
    then obtain i where i: "i < length tr" "s = tr ! i" by (auto simp: in_set_conv_nth)
    show "step_cont s \<noteq> 0 \<and> step_error s = 0"
    proof (cases "Suc i < length tr")
      case True
      with pre i show ?thesis by simp
    next
      case False
      with i have "i = length tr - 1" by simp
      with i have "s = last tr" using ne by (simp add: last_conv_nth)
      with l show ?thesis by simp
    qed
  qed
  have stop: "length tr < 1000 \<longrightarrow> step_cont (last tr) = 0 \<or> step_error (last tr) \<noteq> 0"
    using full allc by fastforce
  have mc1: "step_cont (last tr) = 1 \<longrightarrow>
               mc = (if step_error (last tr) = 0 then 1001 else length tr)"
    using mc full allc by auto
  have ex: "(\<forall>s \<in> set tr. step_cont s = 1) \<longrightarrow> exit_reason (kvm_vcpu (cpu m1)) = 0"
    using kv by (auto simp: kvm_run_prologue_facts)
  from lp ch ne len bin pre1 stop mc1 ex show ?thesis by blast
qed

text \<open>
  C4, as the code has it. On a well-formed tree a run returns after at least one
  and at most 1000 passes of the loop, each pass being the next iteration of the
  loop body; it never loops forever. Every pass but the last ended with \<open>cont\<close> 1
  and without an instruction error, and a run of fewer than 1000 passes was ended
  by a handler returning 0 or by an instruction error. The status returned is 0
  in every case. When the last handler returned 1 the timeout diagnostic is
  printed, with the counter 1001 after 1000 passes and with the number of passes
  after an instruction error; when every handler returned 1 the exit reason of the
  run structure is still 0. The timeout is logged, and nothing that the caller
  receives reports it.
\<close>

theorem kvm_run_wrapper_bounded:
  assumes "ept_wf h (cpu m)"
  shows "\<exists>m1 tr.
           kvm_run_wrapper pf h m =
             Some (0,
                   if step_cont (last tr) = 1
                   then printk (Diag_exit_from_timeout
                                  (if step_error (last tr) = 0 then 1001 else length tr)
                                  (step_reason (last tr))) m1
                   else m1,
                   tr) \<and>
           run_steps pf h 0 0 (m\<lparr>cpu := kvm_run_prologue (cpu m)\<rparr>) tr = Some m1 \<and>
           tr \<noteq> [] \<and> length tr \<le> 1000 \<and>
           (\<forall>i. Suc i < length tr \<longrightarrow> step_cont (tr ! i) = 1 \<and> step_error (tr ! i) = 0) \<and>
           (length tr < 1000 \<longrightarrow> step_cont (last tr) = 0 \<or> step_error (last tr) \<noteq> 0) \<and>
           ((\<forall>s \<in> set tr. step_cont s = 1) \<longrightarrow> exit_reason (kvm_vcpu (cpu m1)) = 0)"
proof -
  from kvm_run_loop_result [OF assms, of pf]
  obtain mc m1 tr where
    lp: "kvm_run_loop pf h 0 1 0 (m\<lparr>cpu := kvm_run_prologue (cpu m)\<rparr>) []
           = Some (mc, step_cont (last tr), step_reason (last tr), m1, tr)" and
    ch: "run_steps pf h 0 0 (m\<lparr>cpu := kvm_run_prologue (cpu m)\<rparr>) tr = Some m1" and
    ne: "tr \<noteq> []" and len: "length tr \<le> 1000" and
    pre: "\<forall>i. Suc i < length tr \<longrightarrow> step_cont (tr ! i) = 1 \<and> step_error (tr ! i) = 0" and
    stop: "length tr < 1000 \<longrightarrow> step_cont (last tr) = 0 \<or> step_error (last tr) \<noteq> 0" and
    mc: "step_cont (last tr) = 1 \<longrightarrow>
           mc = (if step_error (last tr) = 0 then 1001 else length tr)" and
    ex: "(\<forall>s \<in> set tr. step_cont s = 1) \<longrightarrow> exit_reason (kvm_vcpu (cpu m1)) = 0"
    by blast
  have "kvm_run_wrapper pf h m =
             Some (0,
                   if step_cont (last tr) = 1
                   then printk (Diag_exit_from_timeout
                                  (if step_error (last tr) = 0 then 1001 else length tr)
                                  (step_reason (last tr))) m1
                   else m1,
                   tr)"
    using kvm_run_wrapper_loop [OF lp] mc by (cases "step_cont (last tr) = 1") simp_all
  with ch ne len pre stop ex show ?thesis by blast
qed

theorem kvm_run_wrapper_bounded_witness:
  "ept_wf \<lparr>mem = [0x1000 \<mapsto> replicate 1024 0], pool = []\<rparr>
     (cpu \<lparr>cpu = vcpu_zero\<lparr>pml4 := 0x1000\<rparr>, host_msr = (\<lambda>i. 0), world = (), dmesg = []\<rparr>) \<and>
   (\<exists>m' tr.
      kvm_run_wrapper
        \<lparr>vmx_enter = (\<lambda>w r c vm. (w, r, c, vm(VM_EXIT_REASON := 10, VM_INSTRUCTION_ERROR := 0))),
         cpuid = (\<lambda>a c. (0, 0, 0, 0)), proc_issignal = (\<lambda>w. False), phys_addr = (\<lambda>p. p),
         md_prepare = (\<lambda>w a s. 0), md_getPhysicalSegment = (\<lambda>w a s off. 0)\<rparr>
        \<lparr>mem = [0x1000 \<mapsto> replicate 1024 0], pool = []\<rparr>
        \<lparr>cpu = vcpu_zero\<lparr>pml4 := 0x1000\<rparr>, host_msr = (\<lambda>i. 0), world = (), dmesg = []\<rparr>
        = Some (0, m', tr) \<and>
      length tr = 1000 \<and>
      last (dmesg m') = Diag_exit_from_timeout 1001 EXIT_REASON_CPUID \<and>
      exit_reason (kvm_vcpu (cpu m')) = 0)"
proof -
  let ?pf = "\<lparr>vmx_enter = (\<lambda>(w::unit) (r::nat \<Rightarrow> ulong) (c::ulong) vm.
                 (w, r, c, vm(VM_EXIT_REASON := 10, VM_INSTRUCTION_ERROR := 0))),
         cpuid = (\<lambda>a c. (0, 0, 0, 0)), proc_issignal = (\<lambda>w. False), phys_addr = (\<lambda>p. p),
         md_prepare = (\<lambda>w a s. 0), md_getPhysicalSegment = (\<lambda>w a s off. 0)\<rparr>"
  let ?h = "\<lparr>mem = [0x1000 \<mapsto> replicate 1024 (0::ulong)], pool = ([] :: ulong list)\<rparr>"
  let ?m = "\<lparr>cpu = vcpu_zero\<lparr>pml4 := 0x1000\<rparr>, host_msr = (\<lambda>i. 0), world = (), dmesg = []\<rparr>"
  have wf: "ept_wf ?h (cpu ?m)" by (simp add: ept_wf_def numeral_3_eq_3 PAGE_OFFSET_def)
  from kvm_run_wrapper_bounded [OF wf, of ?pf]
  obtain m1 tr where
    run: "kvm_run_wrapper ?pf ?h ?m =
             Some (0,
                   if step_cont (last tr) = 1
                   then printk (Diag_exit_from_timeout
                                  (if step_error (last tr) = 0 then 1001 else length tr)
                                  (step_reason (last tr))) m1
                   else m1,
                   tr)" and
    ne: "tr \<noteq> []" and len: "length tr \<le> 1000" and
    stop: "length tr < 1000 \<longrightarrow> step_cont (last tr) = 0 \<or> step_error (last tr) \<noteq> 0" and
    ex: "(\<forall>s \<in> set tr. step_cont s = 1) \<longrightarrow> exit_reason (kvm_vcpu (cpu m1)) = 0"
    by blast
  from run obtain mc c r' m'' m0 where
    lp: "kvm_run_loop ?pf ?h 0 1 0 m0 [] = Some (mc, c, r', m'', tr)"
    by (auto simp: kvm_run_wrapper_def Let_def split: bind_splits)
  have step: "\<forall>n r m s m'. run_iteration ?pf ?h n r m = Some (s, m') \<longrightarrow>
       step_cont s = 1 \<and> step_error s = 0 \<and> step_reason s = EXIT_REASON_CPUID"
    by (intro allI impI, erule cpuid_platform_step [rotated]) simp
  have all: "\<forall>s \<in> set tr. step_cont s = 1 \<and> step_error s = 0 \<and> step_reason s = EXIT_REASON_CPUID"
    by (rule kvm_run_loop_trace [OF step lp]) simp
  from ne have "last tr \<in> set tr" by simp
  with all have l: "step_cont (last tr) = 1" "step_error (last tr) = 0"
    "step_reason (last tr) = EXIT_REASON_CPUID" by blast+
  with stop len have len': "length tr = 1000" by auto
  from all ex have "exit_reason (kvm_vcpu (cpu m1)) = 0" by blast
  with run l len' wf show ?thesis by (auto simp: printk_def)
qed

text \<open>
  Three runs from an empty tree: one on a platform where every exit is a CPUID
  exit, one where every exit has the reason 0, for which the table has no handler,
  and one where every exit is a CPUID exit with the instruction error 7.
\<close>

lemma cpuid_platform_run:
  fixes pf :: "unit platform"
  assumes pf: "vmx_enter pf = (\<lambda>w r c vm. (w, r, c, vm(VM_EXIT_REASON := 10, VM_INSTRUCTION_ERROR := 0)))"
    and wf: "ept_wf h (cpu m)"
  shows "\<exists>m1 tr. kvm_run_wrapper pf h m =
             Some (0, printk (Diag_exit_from_timeout 1001 EXIT_REASON_CPUID) m1, tr) \<and>
           map step_cont tr = replicate 1000 1 \<and>
           exit_reason (kvm_vcpu (cpu m1)) = 0"
proof -
  from kvm_run_loop_result [OF wf, of pf]
  obtain mc m1 tr where
    lp: "kvm_run_loop pf h 0 1 0 (m\<lparr>cpu := kvm_run_prologue (cpu m)\<rparr>) []
           = Some (mc, step_cont (last tr), step_reason (last tr), m1, tr)" and
    ne: "tr \<noteq> []" and len: "length tr \<le> 1000" and
    stop: "length tr < 1000 \<longrightarrow> step_cont (last tr) = 0 \<or> step_error (last tr) \<noteq> 0" and
    mc: "step_cont (last tr) = 1 \<longrightarrow>
           mc = (if step_error (last tr) = 0 then 1001 else length tr)" and
    ex: "(\<forall>s \<in> set tr. step_cont s = 1) \<longrightarrow> exit_reason (kvm_vcpu (cpu m1)) = 0"
    by blast
  have step: "\<forall>n r m s m'. run_iteration pf h n r m = Some (s, m') \<longrightarrow>
       step_cont s = 1 \<and> step_error s = 0 \<and> step_reason s = EXIT_REASON_CPUID"
    using cpuid_platform_step [OF pf] by blast
  have all: "\<forall>s \<in> set tr. step_cont s = 1 \<and> step_error s = 0 \<and> step_reason s = EXIT_REASON_CPUID"
    by (rule kvm_run_loop_trace [OF step lp]) simp
  from ne have "last tr \<in> set tr" by simp
  with all have l: "step_cont (last tr) = 1" "step_error (last tr) = 0"
    "step_reason (last tr) = EXIT_REASON_CPUID" by blast+
  with stop len have len': "length tr = 1000" by auto
  have "map step_cont tr = replicate (length tr) 1"
    using all by (intro nth_equalityI) simp_all
  with len' have m: "map step_cont tr = replicate 1000 1" by simp
  from all ex have e: "exit_reason (kvm_vcpu (cpu m1)) = 0" by blast
  from kvm_run_wrapper_loop [OF lp] l mc
  have "kvm_run_wrapper pf h m =
          Some (0, printk (Diag_exit_from_timeout 1001 EXIT_REASON_CPUID) m1, tr)" by simp
  with m e show ?thesis by blast
qed

lemma unhandled_platform_run:
  fixes pf :: "unit platform"
  assumes pf: "vmx_enter pf = (\<lambda>w r c vm. (w, r, c, vm(VM_EXIT_REASON := 0, VM_INSTRUCTION_ERROR := 0)))"
  shows "\<exists>m1. kvm_run_wrapper pf h m =
             Some (0, m1, [\<lparr>step_reason = 0, step_cont = 0, step_error = 0\<rparr>]) \<and>
           exit_reason (kvm_vcpu (cpu m1)) = 0"
proof -
  let ?m0 = "m\<lparr>cpu := kvm_run_prologue (cpu m)\<rparr>"
  let ?m1 = "enter_guest pf 0 ?m0"
  let ?s = "\<lparr>step_reason = 0, step_cont = 0, step_error = 0\<rparr>"
  have vm: "vmcs (cpu ?m1) VM_EXIT_REASON = 0" "vmcs (cpu ?m1) VM_INSTRUCTION_ERROR = 0"
    by (simp_all add: enter_guest_def Let_def kvm_run_def pf split_beta vmcs_readl_def
          vmcs_read32_def)
  have d: "dispatch_exit pf h 0 ?m1 = Some (0, ?m1)"
    by (simp add: dispatch_exit_def kvm_vmx_exit_handlers_def kvm_vmx_max_exit_handlers_def
          EXIT_REASON_defs)
  from vm d obtain m2 where it: "run_iteration pf h (Suc 0) 0 ?m0 = Some (?s, m2)"
    and k: "kvm_vcpu (cpu m2) = kvm_vcpu (cpu ?m1)"
    by (auto simp: run_iteration_def Let_def vmcs_read32_def RELEASE_VMCS_def printk_def)
  have lp: "kvm_run_loop pf h 0 1 0 ?m0 [] = Some (Suc 0, 0, 0, m2, [?s])"
    by (simp add: kvm_run_loop_step [OF _ _ it] kvm_run_loop_stop)
  have "exit_reason (kvm_vcpu (cpu m2)) = 0"
    using k by (simp add: enter_guest_kvm_vcpu kvm_run_prologue_facts)
  with kvm_run_wrapper_loop [OF lp] show ?thesis by simp
qed

lemma error_platform_step:
  fixes pf :: "unit platform"
  assumes pf: "vmx_enter pf = (\<lambda>w r c vm. (w, r, c, vm(VM_EXIT_REASON := 10, VM_INSTRUCTION_ERROR := 7)))"
    and it: "run_iteration pf h n r m = Some (s, m')"
  shows "step_cont s = 1 \<and> step_error s = 7 \<and> step_reason s = EXIT_REASON_CPUID"
proof -
  let ?m1 = "enter_guest pf r m"
  have vm: "vmcs (cpu ?m1) VM_EXIT_REASON = 10" "vmcs (cpu ?m1) VM_INSTRUCTION_ERROR = 7"
    by (simp_all add: enter_guest_def Let_def kvm_run_def pf split_beta vmcs_readl_def
          vmcs_read32_def)
  have d: "dispatch_exit pf h EXIT_REASON_CPUID ?m1 =
             Some (1, ?m1\<lparr>cpu := snd (handle_cpuid pf (cpu ?m1))\<rparr>)"
    by (simp add: dispatch_exit_def kvm_vmx_exit_handlers_def kvm_vmx_max_exit_handlers_def
          EXIT_REASON_EXTERNAL_INTERRUPT_def EXIT_REASON_CPUID_def on_vcpu_def
          handle_cpuid_def Let_def split_beta)
  from it vm d show ?thesis
    by (auto simp: run_iteration_def Let_def vmcs_read32_def EXIT_REASON_CPUID_def)
qed

lemma error_platform_run:
  fixes pf :: "unit platform"
  assumes pf: "vmx_enter pf = (\<lambda>w r c vm. (w, r, c, vm(VM_EXIT_REASON := 10, VM_INSTRUCTION_ERROR := 7)))"
    and wf: "ept_wf h (cpu m)"
  shows "\<exists>m1 tr. kvm_run_wrapper pf h m =
             Some (0, printk (Diag_exit_from_timeout 1 EXIT_REASON_CPUID) m1, tr) \<and>
           map step_cont tr = [1]"
proof -
  from kvm_run_loop_result [OF wf, of pf]
  obtain mc m1 tr where
    lp: "kvm_run_loop pf h 0 1 0 (m\<lparr>cpu := kvm_run_prologue (cpu m)\<rparr>) []
           = Some (mc, step_cont (last tr), step_reason (last tr), m1, tr)" and
    ne: "tr \<noteq> []" and
    pre: "\<forall>i. Suc i < length tr \<longrightarrow> step_cont (tr ! i) = 1 \<and> step_error (tr ! i) = 0" and
    mc: "step_cont (last tr) = 1 \<longrightarrow>
           mc = (if step_error (last tr) = 0 then 1001 else length tr)"
    by blast
  have step: "\<forall>n r m s m'. run_iteration pf h n r m = Some (s, m') \<longrightarrow>
       step_cont s = 1 \<and> step_error s = 7 \<and> step_reason s = EXIT_REASON_CPUID"
    using error_platform_step [OF pf] by blast
  have all: "\<forall>s \<in> set tr. step_cont s = 1 \<and> step_error s = 7 \<and> step_reason s = EXIT_REASON_CPUID"
    by (rule kvm_run_loop_trace [OF step lp]) simp
  from ne have "last tr \<in> set tr" by simp
  with all have l: "step_cont (last tr) = 1" "step_error (last tr) = 7"
    "step_reason (last tr) = EXIT_REASON_CPUID" by blast+
  have len: "length tr = 1"
  proof (rule ccontr)
    assume "length tr \<noteq> 1"
    with ne have "Suc 0 < length tr" by (cases tr) auto
    with pre have "step_error (tr ! 0) = 0" by blast
    moreover from ne have "tr ! 0 \<in> set tr" by simp
    ultimately show False using all by auto
  qed
  then obtain s where tr: "tr = [s]" by (cases tr) auto
  with all have m: "map step_cont tr = [1]" by simp
  from kvm_run_wrapper_loop [OF lp] l mc len
  have "kvm_run_wrapper pf h m =
          Some (0, printk (Diag_exit_from_timeout 1 EXIT_REASON_CPUID) m1, tr)" by simp
  with m show ?thesis by (intro exI [of _ m1] exI [of _ tr]) simp
qed

text \<open>
  The claim C4 as stated fails: a run that the bound ends reports no timeout
  status. On a platform where every exit is a CPUID exit the run takes 1000
  passes, every handler returning 1, and hands back the status 0 and the exit
  reason 0 in the run structure: just what the caller gets from a run that an exit
  without a handler stopped after one pass. The diagnostic line of the first run
  is no report of a timeout either: a run of one pass that an instruction error
  ended prints it as well, with the counter 1.
\<close>

theorem kvm_run_wrapper_timeout_status_counterexample:
  "map_option fst (kvm_run_wrapper
      \<lparr>vmx_enter = (\<lambda>w r c vm. (w, r, c, vm(VM_EXIT_REASON := 10, VM_INSTRUCTION_ERROR := 0))),
       cpuid = (\<lambda>a c. (0, 0, 0, 0)), proc_issignal = (\<lambda>w. False), phys_addr = (\<lambda>p. p),
       md_prepare = (\<lambda>w a s. 0), md_getPhysicalSegment = (\<lambda>w a s off. 0)\<rparr>
      \<lparr>mem = [0x1000 \<mapsto> replicate 1024 0], pool = []\<rparr>
      \<lparr>cpu = vcpu_zero\<lparr>pml4 := 0x1000\<rparr>, host_msr = (\<lambda>i. 0), world = (), dmesg = []\<rparr>)
     = Some 0 \<and>
   map_option (map step_cont \<circ> snd \<circ> snd) (kvm_run_wrapper
      \<lparr>vmx_enter = (\<lambda>w r c vm. (w, r, c, vm(VM_EXIT_REASON := 10, VM_INSTRUCTION_ERROR := 0))),
       cpuid = (\<lambda>a c. (0, 0, 0, 0)), proc_issignal = (\<lambda>w. False), phys_addr = (\<lambda>p. p),
       md_prepare = (\<lambda>w a s. 0), md_getPhysicalSegment = (\<lambda>w a s off. 0)\<rparr>
      \<lparr>mem = [0x1000 \<mapsto> replicate 1024 0], pool = []\<rparr>
      \<lparr>cpu = vcpu_zero\<lparr>pml4 := 0x1000\<rparr>, host_msr = (\<lambda>i. 0), world = (), dmesg = []\<rparr>)
     = Some (replicate 1000 1) \<and>
   map_option (exit_reason \<circ> kvm_vcpu \<circ> cpu \<circ> fst \<circ> snd) (kvm_run_wrapper
      \<lparr>vmx_enter = (\<lambda>w r c vm. (w, r, c, vm(VM_EXIT_REASON := 10, VM_INSTRUCTION_ERROR := 0))),
       cpuid = (\<lambda>a c. (0, 0, 0, 0)), proc_issignal = (\<lambda>w. False), phys_addr = (\<lambda>p. p),
       md_prepare = (\<lambda>w a s. 0), md_getPhysicalSegment = (\<lambda>w a s off. 0)\<rparr>
      \<lparr>mem = [0x1000 \<mapsto> replicate 1024 0], pool = []\<rparr>
      \<lparr>cpu = vcpu_zero\<lparr>pml4 := 0x1000\<rparr>, host_msr = (\<lambda>i. 0), world = (), dmesg = []\<rparr>)
     = Some 0 \<and>
   map_option (last \<circ> dmesg \<circ> fst \<circ> snd) (kvm_run_wrapper
      \<lparr>vmx_enter = (\<lambda>w r c vm. (w, r, c, vm(VM_EXIT_REASON := 10, VM_INSTRUCTION_ERROR := 0))),
       cpuid = (\<lambda>a c. (0, 0, 0, 0)), proc_issignal = (\<lambda>w. False), phys_addr = (\<lambda>p. p),
       md_prepare = (\<lambda>w a s. 0), md_getPhysicalSegment = (\<lambda>w a s off. 0)\<rparr>
      \<lparr>mem = [0x1000 \<mapsto> replicate 1024 0], pool = []\<rparr>
      \<lparr>cpu = vcpu_zero\<lparr>pml4 := 0x1000\<rparr>, host_msr = (\<lambda>i. 0), world = (), dmesg = []\<rparr>)
     = Some (Diag_exit_from_timeout 1001 10) \<and>
   map_option fst (kvm_run_wrapper
      \<lparr>vmx_enter = (\<lambda>w r c vm. (w, r, c, vm(VM_EXIT_REASON := 0, VM_INSTRUCTION_ERROR := 0))),
       cpuid = (\<lambda>a c. (0, 0, 0, 0)), proc_issignal = (\<lambda>w. False), phys_addr = (\<lambda>p. p),
       md_prepare = (\<lambda>w a s. 0), md_getPhysicalSegment = (\<lambda>w a s off. 0)\<rparr>
      \<lparr>mem = [0x1000 \<mapsto> replicate 1024 0], pool = []\<rparr>
      \<lparr>cpu = vcpu_zero\<lparr>pml4 := 0x1000\<rparr>, host_msr = (\<lambda>i. 0), world = (), dmesg = []\<rparr>)
     = Some 0 \<and>
   map_option (map step_cont \<circ> snd \<circ> snd) (kvm_run_wrapper
      \<lparr>vmx_enter = (\<lambda>w r c vm. (w, r, c, vm(VM_EXIT_REASON := 0, VM_INSTRUCTION_ERROR := 0))),
       cpuid = (\<lambda>a c. (0, 0, 0, 0)), proc_issignal = (\<lambda>w. False), phys_addr = (\<lambda>p. p),
       md_prepare = (\<lambda>w a s. 0), md_getPhysicalSegment = (\<lambda>w a s off. 0)\<rparr>
      \<lparr>mem = [0x1000 \<mapsto> replicate 1024 0], pool = []\<rparr>
      \<lparr>cpu = vcpu_zero\<lparr>pml4 := 0x1000\<rparr>, host_msr = (\<lambda>i. 0), world = (), dmesg = []\<rparr>)
     = Some [0] \<and>
   map_option (exit_reason \<circ> kvm_vcpu \<circ> cpu \<circ> fst \<circ> snd) (kvm_run_wrapper
      \<lparr>vmx_enter = (\<lambda>w r c vm. (w, r, c, vm(VM_EXIT_REASON := 0, VM_INSTRUCTION_ERROR := 0))),
       cpuid = (\<lambda>a c. (0, 0, 0, 0)), proc_issignal = (\<lambda>w. False), phys_addr = (\<lambda>p. p),
       md_prepare = (\<lambda>w a s. 0), md_getPhysicalSegment = (\<lambda>w a s off. 0)\<rparr>
      \<lparr>mem = [0x1000 \<mapsto> replicate 1024 0], pool = []\<rparr>
      \<lparr>cpu = vcpu_zero\<lparr>pml4 := 0x1000\<rparr>, host_msr = (\<lambda>i. 0), world = (), dmesg = []\<rparr>)
     = Some 0 \<and>
   map_option fst (kvm_run_wrapper
      \<lparr>vmx_enter = (\<lambda>w r c vm. (w, r, c, vm(VM_EXIT_REASON := 10, VM_INSTRUCTION_ERROR := 7))),
       cpuid = (\<lambda>a c. (0, 0, 0, 0)), proc_issignal = (\<lambda>w. False), phys_addr = (\<lambda>p. p),
       md_prepare = (\<lambda>w a s. 0), md_getPhysicalSegment = (\<lambda>w a s off. 0)\<rparr>
      \<lparr>mem = [0x1000 \<mapsto> replicate 1024 0], pool = []\<rparr>
      \<lparr>cpu = vcpu_zero\<lparr>pml4 := 0x1000\<rparr>, host_msr = (\<lambda>i. 0), world = (), dmesg = []\<rparr>)
     = Some 0 \<and>
   map_option (map step_cont \<circ> snd \<circ> snd) (kvm_run_wrapper
      \<lparr>vmx_enter = (\<lambda>w r c vm. (w, r, c, vm(VM_EXIT_REASON := 10, VM_INSTRUCTION_ERROR := 7))),
       cpuid = (\<lambda>a c. (0, 0, 0, 0)), proc_issignal = (\<lambda>w. False), phys_addr = (\<lambda>p. p),
       md_prepare = (\<lambda>w a s. 0), md_getPhysicalSegment = (\<lambda>w a s off. 0)\<rparr>
      \<lparr>mem = [0x1000 \<mapsto> replicate 1024 0], pool = []\<rparr>
      \<lparr>cpu = vcpu_zero\<lparr>pml4 := 0x1000\<rparr>, host_msr = (\<lambda>i. 0), world = (), dmesg = []\<rparr>)
     = Some [1] \<and>
   map_option (last \<circ> dmesg \<circ> fst \<circ> snd) (kvm_run_wrapper
      \<lparr>vmx_enter = (\<lambda>w r c vm. (w, r, c, vm(VM_EXIT_REASON := 10, VM_INSTRUCTION_ERROR := 7))),
       cpuid = (\<lambda>a c. (0, 0, 0, 0)), proc_issignal = (\<lambda>w. False), phys_addr = (\<lambda>p. p),
       md_prepare = (\<lambda>w a s. 0), md_getPhysicalSegment = (\<lambda>w a s off. 0)\<rparr>
      \<lparr>mem = [0x1000 \<mapsto> replicate 1024 0], pool = []\<rparr>
      \<lparr>cpu = vcpu_zero\<lparr>pml4 := 0x1000\<rparr>, host_msr = (\<lambda>i. 0), world = (), dmesg = []\<rparr>)
     = Some (Diag_exit_from_timeout 1 10)"
proof -
  let ?pfc = "\<lparr>vmx_enter = (\<lambda>(w::unit) (r::nat \<Rightarrow> ulong) (c::ulong) vm.
                 (w, r, c, vm(VM_EXIT_REASON := 10, VM_INSTRUCTION_ERROR := 0))),
         cpuid = (\<lambda>a c. (0, 0, 0, 0)), proc_issignal = (\<lambda>w. False), phys_addr = (\<lambda>p. p),
         md_prepare = (\<lambda>w a s. 0), md_getPhysicalSegment = (\<lambda>w a s off. 0)\<rparr>"
  let ?pfu = "\<lparr>vmx_enter = (\<lambda>(w::unit) (r::nat \<Rightarrow> ulong) (c::ulong) vm.
                 (w, r, c, vm(VM_EXIT_REASON := 0, VM_INSTRUCTION_ERROR := 0))),
         cpuid = (\<lambda>a c. (0, 0, 0, 0)), proc_issignal = (\<lambda>w. False), phys_addr = (\<lambda>p. p),
         md_prepare = (\<lambda>w a s. 0), md_getPhysicalSegment = (\<lambda>w a s off. 0)\<rparr>"
  let ?pfe = "\<lparr>vmx_enter = (\<lambda>(w::unit) (r::nat \<Rightarrow> ulong) (c::ulong) vm.
                 (w, r, c, vm(VM_EXIT_REASON := 10, VM_INSTRUCTION_ERROR := 7))),
         cpuid = (\<lambda>a c. (0, 0, 0, 0)), proc_issignal = (\<lambda>w. False), phys_addr = (\<lambda>p. p),
         md_prepare = (\<lambda>w a s. 0), md_getPhysicalSegment = (\<lambda>w a s off. 0)\<rparr>"
  let ?h = "\<lparr>mem = [0x1000 \<mapsto> replicate 1024 (0::ulong)], pool = ([] :: ulong list)\<rparr>"
  let ?m = "\<lparr>cpu = vcpu_zero\<lparr>pml4 := 0x1000\<rparr>, host_msr = (\<lambda>i. 0), world = (), dmesg = []\<rparr>"
  have wf: "ept_wf ?h (cpu ?m)" by (simp add: ept_wf_def numeral_3_eq_3 PAGE_OFFSET_def)
  from cpuid_platform_run [OF _ wf, of ?pfc]
  obtain m1 tr where c: "kvm_run_wrapper ?pfc ?h ?m =
             Some (0, printk (Diag_exit_from_timeout 1001 EXIT_REASON_CPUID) m1, tr)"
    "map step_cont tr = replicate 1000 1" "exit_reason (kvm_vcpu (cpu m1)) = 0"
    by auto
  from unhandled_platform_run [of ?pfu ?h ?m]
  obtain m2 where u: "kvm_run_wrapper ?pfu ?h ?m =
             Some (0, m2, [\<lparr>step_reason = 0, step_cont = 0, step_error = 0\<rparr>])"
    "exit_reason (kvm_vcpu (cpu m2)) = 0"
    by auto
  from error_platform_run [OF _ wf, of ?pfe]
  obtain m3 tr3 where e: "kvm_run_wrapper ?pfe ?h ?m =
             Some (0, printk (Diag_exit_from_timeout 1 EXIT_REASON_CPUID) m3, tr3)"
    "map step_cont tr3 = [1]"
    by auto
  show ?thesis
    by (simp only: c u e option.map prod.sel comp_apply list.map run_step.simps simp_thms)
       (simp add: printk_def c u e EXIT_REASON_CPUID_def)
qed
section \<open>Installing a memory region\<close>

text \<open>
  C8 does not hold of the code: \<open>kvm_set_user_memory_region\<close> compares the user
  address with nothing. With a user address that is not page-aligned, and a memory
  descriptor that prepares and resolves, the call returns 0 and the page is mapped.
\<close>

theorem kvm_set_user_memory_region_unaligned:
  "\<exists>h' m'.
     kvm_set_user_memory_region
       \<lparr>vmx_enter = (\<lambda>w r c vm. (w, r, c, vm)),
        cpuid = (\<lambda>a c. (0, 0, 0, 0)), proc_issignal = (\<lambda>w. False), phys_addr = (\<lambda>p. p),
        md_prepare = (\<lambda>w a s. 0), md_getPhysicalSegment = (\<lambda>w a s off. 0xABCDE123 + off)\<rparr>
       \<lparr>mem = [0x1000 \<mapsto> replicate 1024 0], pool = [0x3000, 0x5000, 0x7000]\<rparr>
       \<lparr>cpu = vcpu_zero\<lparr>pml4 := 0x1000\<rparr>, host_msr = (\<lambda>i. 0), world = (), dmesg = []\<rparr>
       \<lparr>slot = 0, mr_flags = 0, guest_phys_addr = 0x2000, memory_size = 0x1000,
        userspace_addr = 0x7F0000000123\<rparr>
       = Some (0, h', m') \<and>
     ept_translate h' (vcpu_zero\<lparr>pml4 := 0x1000\<rparr>) 0x2000 = Some 0xABCDE000"
proof -
  let ?pf = "\<lparr>vmx_enter = (\<lambda>(w::unit) (r::nat \<Rightarrow> ulong) (c::ulong) (vm::vmcs_field \<Rightarrow> ulong). (w, r, c, vm)),
        cpuid = (\<lambda>a c. (0, 0, 0, 0)), proc_issignal = (\<lambda>w. False), phys_addr = (\<lambda>p. p),
        md_prepare = (\<lambda>w a s. 0), md_getPhysicalSegment = (\<lambda>w a s off. 0xABCDE123 + off)\<rparr>"
  let ?h = "\<lparr>mem = [0x1000 \<mapsto> replicate 1024 (0::ulong)], pool = [0x3000, 0x5000, 0x7000 :: ulong]\<rparr>"
  let ?v = "vcpu_zero\<lparr>pml4 := 0x1000\<rparr>"
  let ?m = "\<lparr>cpu = ?v, host_msr = (\<lambda>i. 0), world = (), dmesg = []\<rparr>"
  let ?mr = "\<lparr>slot = 0, mr_flags = 0, guest_phys_addr = 0x2000, memory_size = 0x1000,
        userspace_addr = 0x7F0000000123\<rparr>"
  let ?m1 = "printk (Diag_mapping 0x7F0000000123 0 0 0x2000 0x3000) ?m"
  have ok: "pool_ok ?h" by (simp add: pool_ok_def)
  have wf: "ept_wf ?h ?v" by (simp add: ept_wf_def numeral_3_eq_3 PAGE_OFFSET_def)
  from add_page_total [OF wf ok, of "\<lambda>p. p" "0x2000" "0xABCDE123"]
  obtain h1 where ad: "ept_add_page (\<lambda>p. p) ?h ?v 0x2000 0xABCDE123 = Some h1" by auto
  have tr: "ept_translate h1 ?v 0x2000 = Some (0xABCDE123 AND NOT 0xFFF)"
    using add_page_mapped [OF ok ad] by (rule mapped_leaf_translate)
  have l2: "kvm_set_user_memory_region_loop ?pf ?mr ?m1 h1 0x1000 = Some (0, h1, ?m1)"
    by (subst kvm_set_user_memory_region_loop.simps) simp
  have l1: "kvm_set_user_memory_region_loop ?pf ?mr ?m1 ?h 0 = Some (0, h1, ?m1)"
    using ad l2
    by (subst kvm_set_user_memory_region_loop.simps) (simp add: printk_def PAGE_SIZE_def)
  have "kvm_set_user_memory_region ?pf ?h ?m ?mr = Some (0, h1, ?m1)"
    using l1 by (simp add: kvm_set_user_memory_region_def Let_def printk_def)
  with tr show ?thesis by simp
qed

end
